theory Spec2Isabelle
  imports Complex_Main
begin

section \<open>The platform game of \<^verbatim>\<open>main.py\<close>\<close>

text \<open>
  A shallow embedding of the game-update loop of \<^verbatim>\<open>src/main.py\<close>: the rectangle
  overlap test, the player's physics and collision resolution, the collectibles and the
  \<^verbatim>\<open>Game\<close> class with its \<^verbatim>\<open>update\<close> and \<^verbatim>\<open>restart_level\<close> methods.

  Numbers. Python mixes \<^verbatim>\<open>int\<close> and \<^verbatim>\<open>float\<close> in positions and velocities
  (\<^verbatim>\<open>GRAVITY = 0.5\<close> makes \<^verbatim>\<open>vel_y\<close> and \<^verbatim>\<open>y\<close> floats). They are modelled as
  \<^typ>\<open>real\<close>: rounding, infinities and NaN are outside this model. The score and the
  animation tick counter are Python integers, modelled as \<^typ>\<open>int\<close>.

  Input. The calls \<^verbatim>\<open>picosystem.button(LEFT)\<close>, \<^verbatim>\<open>picosystem.button(RIGHT)\<close>,
  \<^verbatim>\<open>picosystem.pressed(A)\<close> and \<^verbatim>\<open>picosystem.pressed(X)\<close> read the device once per
  tick; their four answers are the record \<open>Input\<close> that a tick receives.

  Objects. \<^verbatim>\<open>Game.star\<close> and the last element of \<^verbatim>\<open>Game.collectibles\<close> are the same
  Python object. The collectibles therefore live in a store \<open>heap\<close> from addresses to
  objects; \<open>collectibles\<close> is a list of addresses and \<open>star\<close> is an address. The
  player and the platforms are reached through one reference each and are held by value.

  Left out. Class \<^verbatim>\<open>Enemy\<close> is never instantiated, the drawing methods write to the
  display only, and the module-level \<^verbatim>\<open>update(tick)\<close> calls \<^verbatim>\<open>game.update()\<close> and
  quits after tick 1000.
\<close>

subsection \<open>Constants\<close>

definition SCREEN_WIDTH :: real where "SCREEN_WIDTH = 120"
definition SCREEN_HEIGHT :: real where "SCREEN_HEIGHT = 120"
definition GRAVITY :: real where "GRAVITY = 1 / 2"
definition JUMP_STRENGTH :: real where "JUMP_STRENGTH = - 8"
definition PLAYER_SPEED :: real where "PLAYER_SPEED = 2"

type_synonym color = "nat \<times> nat \<times> nat"

definition WHITE :: color where "WHITE = (15, 15, 15)"
definition GREEN :: color where "GREEN = (0, 15, 0)"
definition GRAY :: color where "GRAY = (8, 8, 8)"
definition BROWN :: color where "BROWN = (8, 4, 0)"

subsection \<open>Input of one tick\<close>

record Input =
  button_LEFT :: bool
  button_RIGHT :: bool
  pressed_A :: bool
  pressed_X :: bool

subsection \<open>Rectangles\<close>

text \<open>A rectangle is the 4-tuple \<^verbatim>\<open>(x, y, w, h)\<close> that \<^verbatim>\<open>get_rect\<close> returns.\<close>

type_synonym rect = "real \<times> real \<times> real \<times> real"

text \<open>\<^verbatim>\<open>Player.rect_collision\<close> (it does not read \<^verbatim>\<open>self\<close>).\<close>

fun rect_collision :: "rect \<Rightarrow> rect \<Rightarrow> bool" where
  "rect_collision (x1, y1, w1, h1) (x2, y2, w2, h2) =
     (x1 < x2 + w2 \<and> x1 + w1 > x2 \<and> y1 < y2 + h2 \<and> y1 + h1 > y2)"

subsection \<open>Platform\<close>

text \<open>Fields \<^verbatim>\<open>x, y, width, height, color\<close> of class \<^verbatim>\<open>Platform\<close>, prefixed \<open>pf_\<close>.\<close>

record Platform =
  pf_x :: real
  pf_y :: real
  pf_width :: real
  pf_height :: real
  pf_color :: color

definition new_Platform :: "real \<Rightarrow> real \<Rightarrow> real \<Rightarrow> real \<Rightarrow> color \<Rightarrow> Platform" where
  "new_Platform x y w h c =
     \<lparr>pf_x = x, pf_y = y, pf_width = w, pf_height = h, pf_color = c\<rparr>"

definition pf_get_rect :: "Platform \<Rightarrow> rect" where
  "pf_get_rect pf = (pf_x pf, pf_y pf, pf_width pf, pf_height pf)"

subsection \<open>Player\<close>

text \<open>Fields \<^verbatim>\<open>x, y, width, height\<close> of class \<^verbatim>\<open>Player\<close> are prefixed \<open>p_\<close>;
  the others keep their names.\<close>

record Player =
  p_x :: real
  p_y :: real
  p_width :: real
  p_height :: real
  vel_x :: real
  vel_y :: real
  on_ground :: bool
  start_x :: real
  start_y :: real

definition new_Player :: "real \<Rightarrow> real \<Rightarrow> Player" where
  "new_Player x y =
     \<lparr>p_x = x, p_y = y, p_width = 8, p_height = 8, vel_x = 0, vel_y = 0,
      on_ground = False, start_x = x, start_y = y\<rparr>"

definition player_rect :: "Player \<Rightarrow> rect" where
  "player_rect p = (p_x p, p_y p, p_width p, p_height p)"

text \<open>
  The first half of \<^verbatim>\<open>Player.update\<close> (source lines 86 to 104): horizontal velocity
  from the held buttons, the jump, gravity, then the position update.
\<close>

definition player_move :: "Player \<Rightarrow> Input \<Rightarrow> Player" where
  "player_move p i =
     (let p1 = p\<lparr>vel_x := (if button_LEFT i then - PLAYER_SPEED
                            else if button_RIGHT i then PLAYER_SPEED else 0)\<rparr>;
          p2 = (if pressed_A i \<and> on_ground p1
                then p1\<lparr>vel_y := JUMP_STRENGTH, on_ground := False\<rparr> else p1);
          p3 = p2\<lparr>vel_y := vel_y p2 + GRAVITY\<rparr>
      in p3\<lparr>p_x := p_x p3 + vel_x p3, p_y := p_y p3 + vel_y p3\<rparr>)"

text \<open>
  The body of the loop of \<^verbatim>\<open>Player.handle_collisions\<close> for one platform. The
  rectangle \<open>r\<close> is \<^verbatim>\<open>player_rect\<close>, computed once before the loop; the tests on
  \<^verbatim>\<open>self.vel_y\<close> and \<^verbatim>\<open>self.y\<close> read the player as the earlier platforms left it.
\<close>

definition collide_platform :: "rect \<Rightarrow> Platform \<Rightarrow> Player \<Rightarrow> Player" where
  "collide_platform r pf p =
     (if rect_collision r (pf_get_rect pf) then
        (if vel_y p > 0 then
           (if p_y p < pf_y pf
            then p\<lparr>p_y := pf_y pf - p_height p, vel_y := 0, on_ground := True\<rparr>
            else p)
         else if vel_y p < 0 then
           (if p_y p > pf_y pf
            then p\<lparr>p_y := pf_y pf + pf_height pf, vel_y := 0\<rparr>
            else p)
         else p)
      else p)"

fun collide_loop :: "rect \<Rightarrow> Platform list \<Rightarrow> Player \<Rightarrow> Player" where
  "collide_loop r [] p = p"
| "collide_loop r (pf # pfs) p = collide_loop r pfs (collide_platform r pf p)"

definition handle_collisions :: "Player \<Rightarrow> Platform list \<Rightarrow> Player" where
  "handle_collisions p platforms =
     collide_loop (player_rect p) platforms (p\<lparr>on_ground := False\<rparr>)"

text \<open>The end of \<^verbatim>\<open>Player.update\<close> (lines 111 to 115): keep the player on screen.\<close>

definition clamp_x :: "Player \<Rightarrow> Player" where
  "clamp_x p =
     (if p_x p < 0 then p\<lparr>p_x := 0\<rparr>
      else if p_x p + p_width p > SCREEN_WIDTH then p\<lparr>p_x := SCREEN_WIDTH - p_width p\<rparr>
      else p)"

text \<open>\<^verbatim>\<open>Player.update\<close>.\<close>

definition Player_update :: "Player \<Rightarrow> Input \<Rightarrow> Platform list \<Rightarrow> Player" where
  "Player_update p i platforms = clamp_x (handle_collisions (player_move p i) platforms)"

text \<open>\<^verbatim>\<open>Player.reset\<close>.\<close>

definition reset :: "Player \<Rightarrow> Player" where
  "reset p = p\<lparr>p_x := start_x p, p_y := start_y p, vel_x := 0, vel_y := 0,
               on_ground := False\<rparr>"

subsection \<open>Collectible\<close>

text \<open>
  Fields \<^verbatim>\<open>x, y, width, height\<close> of class \<^verbatim>\<open>Collectible\<close> are prefixed \<open>c_\<close>. The
  attribute \<^verbatim>\<open>is_star\<close> exists on the star only, where it is \<^verbatim>\<open>True\<close>; the test
  \<^verbatim>\<open>hasattr(self, "is_star") and self.is_star\<close> is the field \<open>is_star\<close>, false on an
  object without the attribute.
\<close>

record Collectible =
  c_x :: real
  c_y :: real
  c_width :: real
  c_height :: real
  collected :: bool
  bob_offset :: real
  tick_counter :: int
  is_star :: bool

definition new_Collectible :: "real \<Rightarrow> real \<Rightarrow> Collectible" where
  "new_Collectible x y =
     \<lparr>c_x = x, c_y = y, c_width = 6, c_height = 6, collected = False, bob_offset = 0,
      tick_counter = 0, is_star = False\<rparr>"

text \<open>\<^verbatim>\<open>Collectible.update\<close>: \<^verbatim>\<open>math.sin(self.tick_counter * 0.1) * 2\<close>.\<close>

definition collectible_update :: "Collectible \<Rightarrow> Collectible" where
  "collectible_update c =
     (let t = tick_counter c + 1
      in c\<lparr>tick_counter := t, bob_offset := sin (real_of_int t * (1 / 10)) * 2\<rparr>)"

definition c_get_rect :: "Collectible \<Rightarrow> rect" where
  "c_get_rect c = (c_x c, c_y c + bob_offset c, c_width c, c_height c)"

subsection \<open>Game\<close>

type_synonym addr = nat

record Game =
  player :: Player
  platforms :: "Platform list"
  collectibles :: "addr list"
  heap :: "addr \<Rightarrow> Collectible"
  star :: addr
  score :: int
  game_complete :: bool

text \<open>The platforms that \<^verbatim>\<open>Game.setup_level\<close> appends, in order.\<close>

definition level_platforms :: "Platform list" where
  "level_platforms =
     [new_Platform 0 110 40 10 GREEN, new_Platform 60 110 60 10 GREEN,
      new_Platform 30 90 20 8 WHITE, new_Platform 70 80 25 8 WHITE,
      new_Platform 15 70 20 8 WHITE, new_Platform 80 60 30 8 WHITE,
      new_Platform 10 50 25 8 WHITE, new_Platform 50 40 30 8 WHITE,
      new_Platform 90 30 25 8 WHITE, new_Platform 40 20 40 8 GRAY]"

text \<open>
  The collectibles that \<^verbatim>\<open>Game.setup_level\<close> creates, at the addresses 0 to 7 in the
  order of creation; the star, created last, has address 7. An address that holds no
  object of the game maps to a fresh collectible that nothing reads.
\<close>

definition level_heap :: "addr \<Rightarrow> Collectible" where
  "level_heap =
     (\<lambda>_. new_Collectible 0 0)
       (0 := new_Collectible 35 82, 1 := new_Collectible 78 72,
        2 := new_Collectible 20 62, 3 := new_Collectible 88 52,
        4 := new_Collectible 20 42, 5 := new_Collectible 65 32,
        6 := new_Collectible 98 22,
        7 := (new_Collectible 55 12)\<lparr>is_star := True\<rparr>)"

text \<open>\<^verbatim>\<open>Game.__init__\<close> with \<^verbatim>\<open>Game.setup_level\<close>.\<close>

definition init_game :: Game where
  "init_game =
     \<lparr>player = new_Player 20 80, platforms = level_platforms,
      collectibles = [0, 1, 2, 3, 4, 5, 6, 7], heap = level_heap, star = 7,
      score = 0, game_complete = False\<rparr>"

text \<open>The loop of \<^verbatim>\<open>Game.restart_level\<close> over the collectibles.\<close>

fun clear_collected :: "addr list \<Rightarrow> (addr \<Rightarrow> Collectible) \<Rightarrow> (addr \<Rightarrow> Collectible)" where
  "clear_collected [] h = h"
| "clear_collected (a # as) h = clear_collected as (h(a := (h a)\<lparr>collected := False\<rparr>))"

text \<open>\<^verbatim>\<open>Game.restart_level\<close>.\<close>

definition restart_level :: "Game \<Rightarrow> Game" where
  "restart_level g =
     g\<lparr>player := reset (player g), score := 0, game_complete := False,
       heap := clear_collected (collectibles g) (heap g)\<rparr>"

text \<open>
  The body of the loop of \<^verbatim>\<open>Game.update\<close> over the collectibles (lines 292 to 301),
  for the object at address \<open>a\<close>: the store and the score go in and come out.
\<close>

definition collect_one ::
    "Player \<Rightarrow> addr \<Rightarrow> (addr \<Rightarrow> Collectible) \<times> int \<Rightarrow> (addr \<Rightarrow> Collectible) \<times> int" where
  "collect_one p a hs =
     (let h = fst hs; s = snd hs; c = collectible_update (h a)
      in if \<not> collected c then
           (if rect_collision (player_rect p) (c_get_rect c)
            then (h(a := c\<lparr>collected := True\<rparr>), s + 10)
            else (h(a := c), s))
         else (h(a := c), s))"

fun collect_loop ::
    "Player \<Rightarrow> addr list \<Rightarrow> (addr \<Rightarrow> Collectible) \<times> int \<Rightarrow> (addr \<Rightarrow> Collectible) \<times> int" where
  "collect_loop p [] hs = hs"
| "collect_loop p (a # as) hs = collect_loop p as (collect_one p a hs)"

text \<open>
  The part of \<^verbatim>\<open>Game.update\<close> that runs while playing (lines 288 to 301): the
  player's update, then the collectibles' loop.
\<close>

definition play_entities :: "Game \<Rightarrow> Input \<Rightarrow> Game" where
  "play_entities g i =
     (let p = Player_update (player g) i (platforms g);
          hs = collect_loop p (collectibles g) (heap g, score g)
      in g\<lparr>player := p, heap := fst hs, score := snd hs\<rparr>)"

text \<open>\<^verbatim>\<open>Game.update\<close>.\<close>

definition update :: "Game \<Rightarrow> Input \<Rightarrow> Game" where
  "update g i =
     (if pressed_X i then restart_level g
      else if game_complete g then g
      else
        (let g1 = play_entities g i;
             g2 = (if p_y (player g1) > SCREEN_HEIGHT + 20 then restart_level g1 else g1)
         in if collected (heap g2 (star g2)) then g2\<lparr>game_complete := True\<rparr> else g2))"

text \<open>Any number of ticks of \<^verbatim>\<open>Game.update\<close>, one input each, oldest first.\<close>

fun run :: "Game \<Rightarrow> Input list \<Rightarrow> Game" where
  "run g [] = g"
| "run g (i # is) = run (update g i) is"

subsection \<open>Notions used to state the properties\<close>

text \<open>
  The landing test of \<^verbatim>\<open>Player.handle_collisions\<close> (lines 123 and 126) for a falling
  player \<open>q\<close>: its rectangle overlaps the platform and its top is above the platform's.
\<close>

definition lands_on :: "Player \<Rightarrow> Platform \<Rightarrow> bool" where
  "lands_on q pf = (rect_collision (player_rect q) (pf_get_rect pf) \<and> p_y q < pf_y pf)"

text \<open>Any number of calls of \<^verbatim>\<open>Player.update\<close> against the same platforms.\<close>

fun player_run :: "Player \<Rightarrow> Input list \<Rightarrow> Platform list \<Rightarrow> Player" where
  "player_run p [] pfs = p"
| "player_run p (i # is) pfs = player_run (Player_update p i pfs) is pfs"

text \<open>The number of collectibles of the game whose flag \<^verbatim>\<open>collected\<close> is set.\<close>

definition collected_count :: "Game \<Rightarrow> nat" where
  "collected_count g = length (filter (\<lambda>a. collected (heap g a)) (collectibles g))"

text \<open>
  The pickup test of the loop of \<^verbatim>\<open>Game.update\<close> (lines 293 to 299) for the player
  \<open>p\<close> and a collectible \<open>c\<close> as it is before the loop: \<open>c\<close> is not yet collected and,
  once animated, its rectangle overlaps the player's.
\<close>

definition picks_up :: "Player \<Rightarrow> Collectible \<Rightarrow> bool" where
  "picks_up p c =
     (\<not> collected c \<and> rect_collision (player_rect p) (c_get_rect (collectible_update c)))"

text \<open>
  A tick on which \<^verbatim>\<open>Game.update\<close> calls \<^verbatim>\<open>restart_level\<close>: the restart button is
  pressed (line 281), or the game is playing and the player, after its update, is more
  than 20 units below the screen (line 304).
\<close>

definition restart_tick :: "Game \<Rightarrow> Input \<Rightarrow> bool" where
  "restart_tick g i =
     (pressed_X i
      \<or> (\<not> game_complete g
         \<and> p_y (Player_update (player g) i (platforms g)) > SCREEN_HEIGHT + 20))"

text \<open>
  A test that excludes a pickup whatever the bob offset, which stays within 2 units: the
  player's rectangle is beside the collectible's columns, or at least 2 units above or
  below its resting rectangle.
\<close>

definition clear_of :: "Player \<Rightarrow> Collectible \<Rightarrow> bool" where
  "clear_of p c =
     (p_x p + p_width p \<le> c_x c \<or> c_x c + c_width c \<le> p_x p
      \<or> p_y p + p_height p \<le> c_y c - 2 \<or> c_y c + 2 + c_height c \<le> p_y p)"

text \<open>
  Ticks of a playing game, seen from the player \<open>p\<close> and one collectible \<open>c\<close>: no
  restart input, the player never more than 20 units below the screen, and the player
  clear of the collectible on every tick.
\<close>

fun quiet_run :: "Player \<Rightarrow> Platform list \<Rightarrow> Collectible \<Rightarrow> Input list \<Rightarrow> bool" where
  "quiet_run p pfs c [] = True"
| "quiet_run p pfs c (i # is) =
     (\<not> pressed_X i
      \<and> p_y (Player_update p i pfs) \<le> SCREEN_HEIGHT + 20
      \<and> clear_of (Player_update p i pfs) c
      \<and> quiet_run (Player_update p i pfs) pfs (collectible_update c) is)"

text \<open>
  Ticks of \<^verbatim>\<open>Game.update\<close> that all run the player's update and keep its result: on
  each of them the game is not complete and \<^verbatim>\<open>restart_level\<close> is not called.
\<close>

fun playing_run :: "Game \<Rightarrow> Input list \<Rightarrow> bool" where
  "playing_run g [] = True"
| "playing_run g (i # is) =
     (\<not> restart_tick g i \<and> \<not> game_complete g \<and> playing_run (update g i) is)"

subsection \<open>Sample inputs and states\<close>

definition idle :: Input where
  "idle = \<lparr>button_LEFT = False, button_RIGHT = False, pressed_A = False, pressed_X = False\<rparr>"

definition hold_LEFT :: Input where "hold_LEFT = idle\<lparr>button_LEFT := True\<rparr>"
definition hold_RIGHT :: Input where "hold_RIGHT = idle\<lparr>button_RIGHT := True\<rparr>"
definition press_A :: Input where "press_A = idle\<lparr>pressed_A := True\<rparr>"
definition press_X :: Input where "press_X = idle\<lparr>pressed_X := True\<rparr>"
definition jump_RIGHT :: Input where "jump_RIGHT = hold_RIGHT\<lparr>pressed_A := True\<rparr>"

text \<open>The game after the star alone was picked up.\<close>

definition won_game :: Game where
  "won_game =
     init_game\<lparr>heap := level_heap(7 := (level_heap 7)\<lparr>collected := True\<rparr>),
               score := 10, game_complete := True\<rparr>"

text \<open>The player of the game standing on the left ground platform.\<close>

definition standing_player :: Player where
  "standing_player = (new_Player 20 80)\<lparr>p_y := 102, on_ground := True\<rparr>"

text \<open>Two platforms, the second four units below the first, and a player falling
  onto both.\<close>

definition stacked_platforms :: "Platform list" where
  "stacked_platforms = [new_Platform 0 100 40 10 GREEN, new_Platform 0 104 40 10 GREEN]"

definition falling_player :: Player where
  "falling_player = (new_Player 0 96)\<lparr>vel_y := 1 / 2\<rparr>"

text \<open>A game with one pickup made and the player moved to 21 units below the screen;
  the same with the player standing on the ground before the move.\<close>

definition fallen_game :: Game where
  "fallen_game =
     init_game\<lparr>player := (new_Player 20 80)\<lparr>p_y := SCREEN_HEIGHT + 21\<rparr>,
               heap := level_heap(0 := (level_heap 0)\<lparr>collected := True\<rparr>), score := 10\<rparr>"

definition jumping_fallen_game :: Game where
  "jumping_fallen_game =
     init_game\<lparr>player := standing_player\<lparr>p_y := SCREEN_HEIGHT + 21\<rparr>,
               heap := level_heap(0 := (level_heap 0)\<lparr>collected := True\<rparr>), score := 10\<rparr>"

text \<open>A game with the second collectible picked up and the player next to the first.\<close>

definition near_coin_game :: Game where
  "near_coin_game =
     init_game\<lparr>player := (new_Player 20 80)\<lparr>p_x := 36\<rparr>,
               heap := level_heap(1 := (level_heap 1)\<lparr>collected := True\<rparr>), score := 10\<rparr>"

text \<open>Thirty-four ticks of input that take the player of the new game from its start
  up to the left of the star.\<close>

definition winning_inputs :: "Input list" where
  "winning_inputs =
     [hold_RIGHT, hold_RIGHT, hold_RIGHT, hold_RIGHT, hold_RIGHT, hold_RIGHT, hold_RIGHT,
      jump_RIGHT, idle, idle, hold_LEFT, idle, idle, idle, idle,
      jump_RIGHT, idle, idle, idle, hold_LEFT, hold_LEFT, idle, idle, idle, idle, idle, idle,
      hold_RIGHT, hold_RIGHT, hold_RIGHT, hold_RIGHT, hold_RIGHT, hold_RIGHT, hold_RIGHT]"

section \<open>Properties\<close>

lemmas consts_defs =
  SCREEN_WIDTH_def SCREEN_HEIGHT_def GRAVITY_def JUMP_STRENGTH_def PLAYER_SPEED_def

lemmas input_defs =
  idle_def hold_LEFT_def hold_RIGHT_def press_A_def press_X_def jump_RIGHT_def

text \<open>The definitions that evaluate one call of \<^verbatim>\<open>Player.update\<close> in the level.\<close>

lemmas tick_defs =
  level_platforms_def new_Platform_def new_Player_def input_defs
  player_move_def Player_update_def handle_collisions_def collide_platform_def clamp_x_def
  player_rect_def pf_get_rect_def consts_defs Let_def

subsection \<open>What each operation writes\<close>

lemma clear_collected_apply:
  "clear_collected as h a = (if a \<in> set as then (h a)\<lparr>collected := False\<rparr> else h a)"
  by (induction as arbitrary: h) auto

lemma reset_fields:
  "p_x (reset p) = start_x p" "p_y (reset p) = start_y p" "vel_x (reset p) = 0"
  "vel_y (reset p) = 0" "on_ground (reset p) = False" "p_width (reset p) = p_width p"
  "p_height (reset p) = p_height p" "start_x (reset p) = start_x p"
  "start_y (reset p) = start_y p"
  by (simp_all add: reset_def)

lemma restart_level_fields:
  "player (restart_level g) = reset (player g)"
  "platforms (restart_level g) = platforms g"
  "collectibles (restart_level g) = collectibles g"
  "star (restart_level g) = star g"
  "score (restart_level g) = 0"
  "game_complete (restart_level g) = False"
  "heap (restart_level g) = clear_collected (collectibles g) (heap g)"
  by (simp_all add: restart_level_def)

lemma clamp_x_fields:
  "p_y (clamp_x p) = p_y p" "p_width (clamp_x p) = p_width p"
  "p_height (clamp_x p) = p_height p" "vel_x (clamp_x p) = vel_x p"
  "vel_y (clamp_x p) = vel_y p" "on_ground (clamp_x p) = on_ground p"
  "start_x (clamp_x p) = start_x p" "start_y (clamp_x p) = start_y p"
  by (simp_all add: clamp_x_def)

lemma collide_platform_fields:
  "p_x (collide_platform r pf p) = p_x p" "p_width (collide_platform r pf p) = p_width p"
  "p_height (collide_platform r pf p) = p_height p" "vel_x (collide_platform r pf p) = vel_x p"
  "start_x (collide_platform r pf p) = start_x p" "start_y (collide_platform r pf p) = start_y p"
  by (simp_all add: collide_platform_def)

lemma collide_loop_fields:
  "p_x (collide_loop r pfs p) = p_x p \<and> p_width (collide_loop r pfs p) = p_width p
   \<and> p_height (collide_loop r pfs p) = p_height p \<and> vel_x (collide_loop r pfs p) = vel_x p
   \<and> start_x (collide_loop r pfs p) = start_x p \<and> start_y (collide_loop r pfs p) = start_y p"
  by (induction pfs arbitrary: p) (simp_all add: collide_platform_fields)

lemma handle_collisions_fields:
  "p_x (handle_collisions p pfs) = p_x p" "p_width (handle_collisions p pfs) = p_width p"
  "p_height (handle_collisions p pfs) = p_height p" "vel_x (handle_collisions p pfs) = vel_x p"
  "start_x (handle_collisions p pfs) = start_x p" "start_y (handle_collisions p pfs) = start_y p"
  by (simp_all add: handle_collisions_def collide_loop_fields)

lemma player_move_fields:
  "p_width (player_move p i) = p_width p" "p_height (player_move p i) = p_height p"
  "start_x (player_move p i) = start_x p" "start_y (player_move p i) = start_y p"
  "vel_x (player_move p i) =
     (if button_LEFT i then - PLAYER_SPEED else if button_RIGHT i then PLAYER_SPEED else 0)"
  "p_x (player_move p i) = p_x p + vel_x (player_move p i)"
  "vel_y (player_move p i) =
     (if pressed_A i \<and> on_ground p then JUMP_STRENGTH else vel_y p) + GRAVITY"
  "p_y (player_move p i) = p_y p + vel_y (player_move p i)"
  "on_ground (player_move p i) = (on_ground p \<and> \<not> pressed_A i)"
  by (auto simp add: player_move_def Let_def)

lemma Player_update_fields:
  "p_width (Player_update p i pfs) = p_width p" "p_height (Player_update p i pfs) = p_height p"
  "start_x (Player_update p i pfs) = start_x p" "start_y (Player_update p i pfs) = start_y p"
  by (simp_all add: Player_update_def clamp_x_fields handle_collisions_fields player_move_fields)

lemma play_entities_fields:
  "player (play_entities g i) = Player_update (player g) i (platforms g)"
  "platforms (play_entities g i) = platforms g"
  "collectibles (play_entities g i) = collectibles g"
  "star (play_entities g i) = star g"
  "game_complete (play_entities g i) = game_complete g"
  "heap (play_entities g i) =
     fst (collect_loop (Player_update (player g) i (platforms g)) (collectibles g) (heap g, score g))"
  "score (play_entities g i) =
     snd (collect_loop (Player_update (player g) i (platforms g)) (collectibles g) (heap g, score g))"
  by (simp_all add: play_entities_def Let_def)

text \<open>The fields of a game that no tick ever writes.\<close>

lemma update_static:
  "platforms (update g i) = platforms g \<and> collectibles (update g i) = collectibles g
   \<and> star (update g i) = star g \<and> start_x (player (update g i)) = start_x (player g)
   \<and> start_y (player (update g i)) = start_y (player g)
   \<and> p_width (player (update g i)) = p_width (player g)
   \<and> p_height (player (update g i)) = p_height (player g)"
  by (simp add: update_def Let_def restart_level_fields play_entities_fields reset_fields
      Player_update_fields)

lemma run_static:
  "platforms (run g ins) = platforms g \<and> collectibles (run g ins) = collectibles g
   \<and> star (run g ins) = star g \<and> start_x (player (run g ins)) = start_x (player g)
   \<and> start_y (player (run g ins)) = start_y (player g)
   \<and> p_width (player (run g ins)) = p_width (player g)
   \<and> p_height (player (run g ins)) = p_height (player g)"
  by (induction ins arbitrary: g) (simp_all add: update_static)

lemma init_game_fields:
  "platforms init_game = level_platforms" "collectibles init_game = [0, 1, 2, 3, 4, 5, 6, 7]"
  "star init_game = 7" "score init_game = 0" "game_complete init_game = False"
  "heap init_game = level_heap" "player init_game = new_Player 20 80"
  by (simp_all add: init_game_def)

lemma new_Player_fields:
  "p_x (new_Player a b) = a" "p_y (new_Player a b) = b" "p_width (new_Player a b) = 8"
  "p_height (new_Player a b) = 8" "vel_x (new_Player a b) = 0" "vel_y (new_Player a b) = 0"
  "on_ground (new_Player a b) = False" "start_x (new_Player a b) = a"
  "start_y (new_Player a b) = b"
  by (simp_all add: new_Player_def)

subsection \<open>The overlap test\<close>

text \<open>
  Claim C8. \<^verbatim>\<open>rect_collision\<close> is true exactly when the four strict comparisons hold;
  so it is symmetric, and two rectangles that share only an edge, such as (0,0,10,10)
  and (10,0,10,10), do not overlap.
\<close>

theorem rect_collision_strict_overlap:
  "(rect_collision (x1, y1, w1, h1) (x2, y2, w2, h2) \<longleftrightarrow>
      x1 < x2 + w2 \<and> x1 + w1 > x2 \<and> y1 < y2 + h2 \<and> y1 + h1 > y2)
   \<and> rect_collision a b = rect_collision b a
   \<and> \<not> rect_collision (0, 0, 10, 10) (10, 0, 10, 10)"
proof -
  obtain ax ay aw ah where a: "a = (ax, ay, aw, ah)" by (cases a)
  obtain bx "by" bw bh where b: "b = (bx, by, bw, bh)" by (cases b)
  have "rect_collision a b = rect_collision b a" unfolding a b by auto
  then show ?thesis by simp
qed

subsection \<open>Restart and the complete state\<close>

text \<open>
  Claim C2. When the restart button is pressed, \<^verbatim>\<open>Game.update\<close> is exactly
  \<^verbatim>\<open>restart_level\<close>, whether or not the game is complete. Afterwards the player is at
  its start position, which is (20, 80) in every game that ran from the initial one,
  its velocity is zero, the score is 0, no collectible of the game is collected and
  the game is not complete.
\<close>

theorem restart_input_resets:
  "pressed_X i \<Longrightarrow>
     update g i = restart_level g
     \<and> p_x (player (update g i)) = start_x (player g)
     \<and> p_y (player (update g i)) = start_y (player g)
     \<and> vel_x (player (update g i)) = 0 \<and> vel_y (player (update g i)) = 0
     \<and> score (update g i) = 0
     \<and> collectibles (update g i) = collectibles g
     \<and> (\<forall>a \<in> set (collectibles g). \<not> collected (heap (update g i) a))
     \<and> \<not> game_complete (update g i)
     \<and> p_x (player (update (run init_game ins) i)) = 20
     \<and> p_y (player (update (run init_game ins) i)) = 80"
proof -
  assume x: "pressed_X i"
  have u: "update g i = restart_level g" for g
    using x by (simp add: update_def)
  have s: "start_x (player (run init_game ins)) = 20 \<and> start_y (player (run init_game ins)) = 80"
    by (simp add: run_static init_game_fields new_Player_fields)
  show ?thesis
    by (simp add: u s restart_level_fields reset_fields clear_collected_apply)
qed

theorem restart_input_resets_witness:
  "pressed_X press_X
   \<and> update won_game press_X = restart_level won_game
   \<and> p_x (player (update won_game press_X)) = 20
   \<and> p_y (player (update won_game press_X)) = 80
   \<and> vel_x (player (update won_game press_X)) = 0
   \<and> vel_y (player (update won_game press_X)) = 0
   \<and> score (update won_game press_X) = 0
   \<and> star won_game \<in> set (collectibles won_game)
   \<and> \<not> collected (heap (update won_game press_X) (star won_game))
   \<and> \<not> game_complete (update won_game press_X)
   \<and> p_x (player (update (run init_game [hold_LEFT, press_A]) press_X)) = 20
   \<and> p_y (player (update (run init_game [hold_LEFT, press_A]) press_X)) = 80"
proof -
  have h: "pressed_X press_X"
    by (simp add: input_defs)
  have s: "star won_game \<in> set (collectibles won_game)"
    by (simp add: won_game_def init_game_def)
  have st: "start_x (player won_game) = 20" "start_y (player won_game) = 80"
    by (simp_all add: won_game_def init_game_def new_Player_def)
  from restart_input_resets [OF h, of won_game "[hold_LEFT, press_A]", unfolded st] h s
  show ?thesis by blast
qed

text \<open>
  Claim C7. While the game is complete and the restart button is not pressed,
  \<^verbatim>\<open>Game.update\<close> returns the state as it was.
\<close>

theorem complete_tick_changes_nothing:
  "game_complete g \<Longrightarrow> \<not> pressed_X i \<Longrightarrow> update g i = g"
  by (simp add: update_def)

theorem complete_tick_changes_nothing_witness:
  "game_complete won_game \<and> \<not> pressed_X press_A \<and> update won_game press_A = won_game"
  using complete_tick_changes_nothing [of won_game press_A]
  by (simp add: won_game_def input_defs)

subsection \<open>Jumping\<close>

lemma collide_platform_not_falling:
  "vel_y q \<le> 0 \<Longrightarrow> vel_y (collide_platform r pf q) \<le> 0
     \<and> on_ground (collide_platform r pf q) = on_ground q"
  by (simp add: collide_platform_def)

lemma collide_loop_not_falling:
  "vel_y q \<le> 0 \<Longrightarrow> on_ground (collide_loop r pfs q) = on_ground q"
proof (induction pfs arbitrary: q)
  case Nil
  then show ?case by simp
next
  case (Cons pf pfs)
  from Cons.prems have "vel_y (collide_platform r pf q) \<le> 0"
    and "on_ground (collide_platform r pf q) = on_ground q"
    by (simp_all add: collide_platform_not_falling)
  with Cons.IH [of "collide_platform r pf q"] show ?case by simp
qed

lemma handle_collisions_not_falling:
  "vel_y q \<le> 0 \<Longrightarrow> \<not> on_ground (handle_collisions q pfs)"
  by (simp add: handle_collisions_def collide_loop_not_falling)

text \<open>
  Claim C9. On a tick where the jump button is freshly pressed and the player is on the
  ground, the velocity that moves the player that tick is \<open>JUMP_STRENGTH + GRAVITY\<close>
  and \<^verbatim>\<open>on_ground\<close> is cleared, also at the end of \<^verbatim>\<open>Player.update\<close>; on every tick
  gravity is added to the vertical velocity before the position is updated.
\<close>

theorem jump_and_gravity_add:
  "(pressed_A i \<and> on_ground p \<longrightarrow>
      vel_y (player_move p i) = JUMP_STRENGTH + GRAVITY
      \<and> p_y (player_move p i) = p_y p + (JUMP_STRENGTH + GRAVITY)
      \<and> \<not> on_ground (player_move p i)
      \<and> \<not> on_ground (Player_update p i pfs))
   \<and> vel_y (player_move p i) =
       (if pressed_A i \<and> on_ground p then JUMP_STRENGTH else vel_y p) + GRAVITY
   \<and> p_y (player_move p i) = p_y p + vel_y (player_move p i)
   \<and> Player_update p i pfs = clamp_x (handle_collisions (player_move p i) pfs)"
proof -
  have "\<not> on_ground (Player_update p i pfs)" if "pressed_A i" "on_ground p"
  proof -
    from that have "vel_y (player_move p i) \<le> 0"
      by (simp add: player_move_fields consts_defs)
    then show ?thesis
      by (simp add: Player_update_def clamp_x_fields handle_collisions_not_falling)
  qed
  then show ?thesis
    by (simp add: player_move_fields Player_update_def)
qed

theorem jump_and_gravity_add_witness:
  "pressed_A press_A \<and> on_ground standing_player
   \<and> vel_y (player_move standing_player press_A) = JUMP_STRENGTH + GRAVITY
   \<and> JUMP_STRENGTH + GRAVITY = - 15 / 2
   \<and> p_y (player_move standing_player press_A) = 189 / 2
   \<and> \<not> on_ground (player_move standing_player press_A)
   \<and> \<not> on_ground (Player_update standing_player press_A level_platforms)"
proof -
  have h: "pressed_A press_A \<and> on_ground standing_player"
    by (simp add: input_defs standing_player_def)
  have y: "p_y standing_player + (JUMP_STRENGTH + GRAVITY) = 189 / 2"
    by (simp add: standing_player_def consts_defs)
  have c: "JUMP_STRENGTH + GRAVITY = - 15 / 2"
    by (simp add: consts_defs)
  from jump_and_gravity_add [of press_A standing_player level_platforms, unfolded y] h c
  show ?thesis by blast
qed

subsection \<open>Landing\<close>

lemma collide_platform_at_rest: "vel_y q = 0 \<Longrightarrow> collide_platform r pf q = q"
  by (simp add: collide_platform_def)

lemma collide_loop_at_rest: "vel_y q = 0 \<Longrightarrow> collide_loop r pfs q = q"
  by (induction pfs) (simp_all add: collide_platform_at_rest)

text \<open>A falling player is moved by the first platform of the list that its rectangle
  overlaps while its top is above the platform's top, and by no other.\<close>

lemma collide_loop_falling:
  "vel_y q > 0 \<Longrightarrow>
   collide_loop r pfs q =
     (case find (\<lambda>pf. rect_collision r (pf_get_rect pf) \<and> p_y q < pf_y pf) pfs of
        None \<Rightarrow> q
      | Some pf \<Rightarrow> q\<lparr>p_y := pf_y pf - p_height q, vel_y := 0, on_ground := True\<rparr>)"
proof (induction pfs)
  case Nil
  then show ?case by simp
next
  case (Cons pf pfs)
  show ?case
  proof (cases "rect_collision r (pf_get_rect pf) \<and> p_y q < pf_y pf")
    case True
    with Cons.prems
    have "collide_platform r pf q = q\<lparr>p_y := pf_y pf - p_height q, vel_y := 0, on_ground := True\<rparr>"
      by (simp add: collide_platform_def)
    with True show ?thesis by (simp add: collide_loop_at_rest)
  next
    case False
    with Cons.prems have "collide_platform r pf q = q"
      by (auto simp add: collide_platform_def)
    with False Cons show ?thesis by auto
  qed
qed

lemma find_member:
  "x \<in> set xs \<Longrightarrow> P x \<Longrightarrow> \<exists>y. find P xs = Some y \<and> y \<in> set xs \<and> P y"
  by (induction xs) auto

text \<open>An 8 by 8 rectangle overlaps at most one platform of the level.\<close>

lemma level_platforms_apart:
  assumes "pf \<in> set level_platforms" "pf' \<in> set level_platforms"
    and "rect_collision (x, y, 8, 8) (pf_get_rect pf)"
    and "rect_collision (x, y, 8, 8) (pf_get_rect pf')"
  shows "pf = pf'"
  using assms
  by (auto simp add: level_platforms_def new_Platform_def pf_get_rect_def)

lemma handle_collisions_falling:
  assumes "vel_y q > 0"
  shows "handle_collisions q pfs =
     (case find (lands_on q) pfs of
        None \<Rightarrow> q\<lparr>on_ground := False\<rparr>
      | Some pf \<Rightarrow> q\<lparr>p_y := pf_y pf - p_height q, vel_y := 0, on_ground := True\<rparr>)"
proof -
  have "(\<lambda>pf. rect_collision (player_rect q) (pf_get_rect pf) \<and> p_y (q\<lparr>on_ground := False\<rparr>) < pf_y pf)
        = lands_on q"
    by (simp add: lands_on_def fun_eq_iff)
  with assms collide_loop_falling [of "q\<lparr>on_ground := False\<rparr>" "player_rect q" pfs]
  show ?thesis
    by (simp add: handle_collisions_def split: option.splits)
qed

lemma level_lands_unique:
  assumes "pf \<in> set level_platforms" "pf' \<in> set level_platforms"
    and "p_width q = 8" "p_height q = 8" "lands_on q pf" "lands_on q pf'"
  shows "pf = pf'"
  using assms level_platforms_apart [of pf pf' "p_x q" "p_y q"]
  by (simp add: lands_on_def player_rect_def)

text \<open>
  Claim C3, as stated, fails: with two platforms that the falling player overlaps, both
  with their tops below the player's top, the player is put on the one that comes first
  in the list, whatever the other's height.
\<close>

theorem landing_counterexample:
  "vel_y (player_move falling_player idle) > 0
   \<and> new_Platform 0 104 40 10 GREEN \<in> set stacked_platforms
   \<and> rect_collision (player_rect (player_move falling_player idle))
        (pf_get_rect (new_Platform 0 104 40 10 GREEN))
   \<and> p_y (player_move falling_player idle) < pf_y (new_Platform 0 104 40 10 GREEN)
   \<and> p_y (Player_update falling_player idle stacked_platforms)
        \<noteq> pf_y (new_Platform 0 104 40 10 GREEN) - p_height falling_player
   \<and> p_y (Player_update falling_player idle stacked_platforms) = 92"
  by (simp add: falling_player_def stacked_platforms_def input_defs new_Player_def
      new_Platform_def player_move_def Player_update_def handle_collisions_def
      collide_platform_def clamp_x_def player_rect_def pf_get_rect_def consts_defs Let_def)

text \<open>
  Claim C3, amended. When the player, after its move, falls (vertical velocity strictly
  positive), overlaps a platform of the list and has its top above that platform's top,
  then \<^verbatim>\<open>Player.update\<close> ends with vertical velocity 0 and \<^verbatim>\<open>on_ground\<close> true, and the
  player's \<^verbatim>\<open>y\<close> is the top of the first platform of the list that meets these
  conditions, minus the player's height. That platform is the given one when the given
  one is the first such platform, and always with the platforms of the level and the
  8 by 8 player.
\<close>

theorem landing_on_platform:
  assumes "q = player_move p i" and "vel_y q > 0" and "pf \<in> set pfs"
    and "rect_collision (player_rect q) (pf_get_rect pf)" and "p_y q < pf_y pf"
  shows "vel_y (Player_update p i pfs) = 0 \<and> on_ground (Player_update p i pfs)
     \<and> (\<exists>pf1. find (lands_on q) pfs = Some pf1
           \<and> p_y (Player_update p i pfs) = pf_y pf1 - p_height p)
     \<and> (find (lands_on q) pfs = Some pf
          \<or> pfs = level_platforms \<and> p_width p = 8 \<and> p_height p = 8 \<longrightarrow>
        p_y (Player_update p i pfs) = pf_y pf - p_height p)"
proof -
  have l: "lands_on q pf"
    using assms(4,5) by (simp add: lands_on_def)
  with assms(3) obtain pf1 where f: "find (lands_on q) pfs = Some pf1"
    and m: "pf1 \<in> set pfs" and l1: "lands_on q pf1"
    using find_member [of pf pfs "lands_on q"] by blast
  have sz: "p_height q = p_height p" "p_width q = p_width p"
    using assms(1) by (simp_all add: player_move_fields)
  have h: "handle_collisions q pfs = q\<lparr>p_y := pf_y pf1 - p_height q, vel_y := 0, on_ground := True\<rparr>"
    using assms(2) f by (simp add: handle_collisions_falling)
  have u: "Player_update p i pfs = clamp_x (handle_collisions q pfs)"
    using assms(1) by (simp add: Player_update_def)
  have y: "p_y (Player_update p i pfs) = pf_y pf1 - p_height p"
    by (simp add: u h clamp_x_fields sz)
  have "pf1 = pf" if "pfs = level_platforms \<and> p_width p = 8 \<and> p_height p = 8"
    using that level_lands_unique [of pf1 pf q] m assms(3) l l1 sz by simp
  moreover have "pf1 = pf" if "find (lands_on q) pfs = Some pf"
    using that f by simp
  ultimately show ?thesis
    using y f by (auto simp add: u h clamp_x_fields)
qed

theorem landing_on_platform_witness:
  "vel_y (player_move ((new_Player 20 100)\<lparr>vel_y := 2\<rparr>) hold_LEFT) > 0
   \<and> new_Platform 0 110 40 10 GREEN \<in> set level_platforms
   \<and> rect_collision (player_rect (player_move ((new_Player 20 100)\<lparr>vel_y := 2\<rparr>) hold_LEFT))
        (pf_get_rect (new_Platform 0 110 40 10 GREEN))
   \<and> p_y (player_move ((new_Player 20 100)\<lparr>vel_y := 2\<rparr>) hold_LEFT)
        < pf_y (new_Platform 0 110 40 10 GREEN)
   \<and> p_width ((new_Player 20 100)\<lparr>vel_y := 2\<rparr>) = 8
   \<and> p_height ((new_Player 20 100)\<lparr>vel_y := 2\<rparr>) = 8
   \<and> vel_y (Player_update ((new_Player 20 100)\<lparr>vel_y := 2\<rparr>) hold_LEFT level_platforms) = 0
   \<and> on_ground (Player_update ((new_Player 20 100)\<lparr>vel_y := 2\<rparr>) hold_LEFT level_platforms)
   \<and> p_y (Player_update ((new_Player 20 100)\<lparr>vel_y := 2\<rparr>) hold_LEFT level_platforms) = 102"
  using landing_on_platform
    [of "player_move ((new_Player 20 100)\<lparr>vel_y := 2\<rparr>) hold_LEFT"
        "(new_Player 20 100)\<lparr>vel_y := 2\<rparr>" hold_LEFT
        "new_Platform 0 110 40 10 GREEN" level_platforms]
  by (simp add: level_platforms_def input_defs new_Player_def new_Platform_def
      player_move_def player_rect_def pf_get_rect_def consts_defs Let_def)

subsection \<open>Falling off the screen\<close>

lemma collide_loop_no_overlap:
  "\<forall>pf \<in> set pfs. \<not> rect_collision r (pf_get_rect pf) \<Longrightarrow> collide_loop r pfs q = q"
  by (induction pfs arbitrary: q) (simp_all add: collide_platform_def)

text \<open>No platform of the level reaches below the screen.\<close>

lemma level_platforms_above:
  "pf \<in> set level_platforms \<Longrightarrow> pf_y pf + pf_height pf \<le> SCREEN_HEIGHT"
  by (auto simp add: level_platforms_def new_Platform_def SCREEN_HEIGHT_def)

lemma handle_collisions_below_level:
  assumes "p_y q \<ge> SCREEN_HEIGHT"
  shows "handle_collisions q level_platforms = q\<lparr>on_ground := False\<rparr>"
proof -
  have "\<not> rect_collision (player_rect q) (pf_get_rect pf)" if "pf \<in> set level_platforms" for pf
    using level_platforms_above [OF that] assms
    by (simp add: player_rect_def pf_get_rect_def)
  then show ?thesis
    by (simp add: handle_collisions_def collide_loop_no_overlap)
qed

lemma player_of_update:
  "\<not> pressed_X i \<Longrightarrow> \<not> game_complete g \<Longrightarrow>
   player (update g i) =
     (if p_y (Player_update (player g) i (platforms g)) > SCREEN_HEIGHT + 20
      then reset (Player_update (player g) i (platforms g))
      else Player_update (player g) i (platforms g))"
  by (simp add: update_def Let_def play_entities_fields restart_level_fields)

lemma fallen_game_tick:
  "p_y (Player_update (player fallen_game) idle (platforms fallen_game)) = 283 / 2"
proof -
  have m: "p_y (player_move (player fallen_game) idle) = 283 / 2"
    by (simp add: fallen_game_def player_move_fields idle_def new_Player_def consts_defs)
  then have "handle_collisions (player_move (player fallen_game) idle) level_platforms
      = (player_move (player fallen_game) idle)\<lparr>on_ground := False\<rparr>"
    by (simp add: handle_collisions_below_level SCREEN_HEIGHT_def)
  with m show ?thesis
    by (simp add: Player_update_def clamp_x_fields fallen_game_def init_game_def)
qed

lemma player_move_y_bound:
  "vel_y p > - 3 / 2 \<Longrightarrow> \<not> (pressed_A i \<and> on_ground p) \<Longrightarrow>
   p_y (player_move p i) > p_y p - 1"
  by (auto simp add: player_move_fields GRAVITY_def)

lemma jumping_fallen_tick:
  "p_y (Player_update (player jumping_fallen_game) press_A (platforms jumping_fallen_game))
     = 267 / 2"
  "vel_y (Player_update (player jumping_fallen_game) press_A (platforms jumping_fallen_game))
     = - 15 / 2"
proof -
  have m: "p_y (player_move (player jumping_fallen_game) press_A) = 267 / 2"
    "vel_y (player_move (player jumping_fallen_game) press_A) = - 15 / 2"
    by (simp_all add: jumping_fallen_game_def standing_player_def player_move_fields
        press_A_def idle_def new_Player_def consts_defs)
  then have "handle_collisions (player_move (player jumping_fallen_game) press_A) level_platforms
      = (player_move (player jumping_fallen_game) press_A)\<lparr>on_ground := False\<rparr>"
    by (simp add: handle_collisions_below_level SCREEN_HEIGHT_def)
  with m show
    "p_y (Player_update (player jumping_fallen_game) press_A (platforms jumping_fallen_game))
       = 267 / 2"
    "vel_y (Player_update (player jumping_fallen_game) press_A (platforms jumping_fallen_game))
       = - 15 / 2"
    by (simp_all add: Player_update_def clamp_x_fields jumping_fallen_game_def init_game_def)
qed

text \<open>
  Claim C10. \<^verbatim>\<open>restart_level\<close> leaves the platforms, the list of collectibles and the
  star reference as they are; of every collectible it writes the flag \<^verbatim>\<open>collected\<close>
  only, so the tick counter, the bob offset, the position and the size stay; of the
  player it writes the position, the velocity and \<^verbatim>\<open>on_ground\<close>. A tick with the
  restart button pressed is \<^verbatim>\<open>restart_level\<close> of the state before the tick; a tick on
  which the player has fallen off is \<^verbatim>\<open>restart_level\<close> of the state that the player's
  and the collectibles' updates of that tick produced.
\<close>

theorem restart_level_frame:
  "platforms (restart_level g) = platforms g
   \<and> collectibles (restart_level g) = collectibles g
   \<and> star (restart_level g) = star g
   \<and> heap (restart_level g) a =
       (if a \<in> set (collectibles g) then (heap g a)\<lparr>collected := False\<rparr> else heap g a)
   \<and> tick_counter (heap (restart_level g) a) = tick_counter (heap g a)
   \<and> bob_offset (heap (restart_level g) a) = bob_offset (heap g a)
   \<and> c_x (heap (restart_level g) a) = c_x (heap g a)
   \<and> c_y (heap (restart_level g) a) = c_y (heap g a)
   \<and> c_width (heap (restart_level g) a) = c_width (heap g a)
   \<and> c_height (heap (restart_level g) a) = c_height (heap g a)
   \<and> is_star (heap (restart_level g) a) = is_star (heap g a)
   \<and> player (restart_level g) =
       (player g)\<lparr>p_x := start_x (player g), p_y := start_y (player g), vel_x := 0,
                  vel_y := 0, on_ground := False\<rparr>
   \<and> (pressed_X i \<longrightarrow> update g i = restart_level g)
   \<and> (\<not> pressed_X i \<and> \<not> game_complete g \<and> star g \<in> set (collectibles g)
        \<and> p_y (Player_update (player g) i (platforms g)) > SCREEN_HEIGHT + 20 \<longrightarrow>
      update g i = restart_level (play_entities g i))"
  by (simp add: restart_level_fields clear_collected_apply reset_def update_def Let_def
      play_entities_fields)

theorem restart_level_frame_witness:
  "pressed_X press_X \<and> update won_game press_X = restart_level won_game
   \<and> tick_counter (heap (restart_level won_game) 7) = tick_counter (heap won_game 7)
   \<and> bob_offset (heap (restart_level won_game) 7) = bob_offset (heap won_game 7)
   \<and> \<not> pressed_X idle \<and> \<not> game_complete fallen_game
   \<and> star fallen_game \<in> set (collectibles fallen_game)
   \<and> p_y (Player_update (player fallen_game) idle (platforms fallen_game)) > SCREEN_HEIGHT + 20
   \<and> update fallen_game idle = restart_level (play_entities fallen_game idle)"
proof -
  have h1: "pressed_X press_X"
    by (simp add: input_defs)
  have h2: "\<not> pressed_X idle \<and> \<not> game_complete fallen_game
      \<and> star fallen_game \<in> set (collectibles fallen_game)
      \<and> p_y (Player_update (player fallen_game) idle (platforms fallen_game)) > SCREEN_HEIGHT + 20"
    by (simp add: fallen_game_tick) (simp add: fallen_game_def init_game_def idle_def
        SCREEN_HEIGHT_def)
  from restart_level_frame [of won_game 7 press_X] restart_level_frame [of fallen_game 7 idle]
    h1 h2
  show ?thesis by blast
qed

text \<open>
  Claim C6, as stated, fails: the test \<^verbatim>\<open>player.y > SCREEN_HEIGHT + 20\<close> reads the
  player after its update of that tick. A player on the ground that is moved to
  \<open>SCREEN_HEIGHT + 21\<close> and jumps on the next tick rises to 133.5 and is not reset.
\<close>

theorem fall_off_needs_y_after_update_counterexample:
  "\<not> game_complete jumping_fallen_game
   \<and> p_y (player jumping_fallen_game) = SCREEN_HEIGHT + 21
   \<and> \<not> pressed_X press_A
   \<and> p_y (player (update jumping_fallen_game press_A)) = 267 / 2
   \<and> p_y (player (update jumping_fallen_game press_A)) \<noteq> start_y (player jumping_fallen_game)
   \<and> vel_y (player (update jumping_fallen_game press_A)) \<noteq> 0"
proof -
  note u = jumping_fallen_tick
  have n: "\<not> pressed_X press_A" "\<not> game_complete jumping_fallen_game"
    by (simp_all add: input_defs jumping_fallen_game_def init_game_def)
  have "player (update jumping_fallen_game press_A)
      = Player_update (player jumping_fallen_game) press_A (platforms jumping_fallen_game)"
    using n u by (simp add: player_of_update SCREEN_HEIGHT_def)
  with u n show ?thesis
    by (simp add: jumping_fallen_game_def standing_player_def new_Player_def init_game_def)
qed

text \<open>
  Claim C6, amended. In a playing game, on a tick without restart input, the reset
  happens exactly when the player's \<^verbatim>\<open>y\<close> after its update of that tick exceeds
  \<open>SCREEN_HEIGHT + 20\<close>: then the tick is \<^verbatim>\<open>restart_level\<close>, the player is at its
  start with zero velocity, the score is 0, no collectible of the game is collected and
  the game is not complete, whatever the score and the flags were; otherwise the player
  is the updated one. With the platforms of the level, a player at
  \<open>SCREEN_HEIGHT + 21\<close> is reset whenever its vertical velocity before the tick is
  above -1.5 and no jump starts on the tick.
\<close>

theorem fall_off_resets:
  assumes "\<not> pressed_X i" and "\<not> game_complete g" and "star g \<in> set (collectibles g)"
  shows "(p_y (Player_update (player g) i (platforms g)) > SCREEN_HEIGHT + 20 \<longrightarrow>
        update g i = restart_level (play_entities g i)
        \<and> p_x (player (update g i)) = start_x (player g)
        \<and> p_y (player (update g i)) = start_y (player g)
        \<and> vel_x (player (update g i)) = 0 \<and> vel_y (player (update g i)) = 0
        \<and> score (update g i) = 0
        \<and> (\<forall>a \<in> set (collectibles g). \<not> collected (heap (update g i) a))
        \<and> \<not> game_complete (update g i))
     \<and> (\<not> p_y (Player_update (player g) i (platforms g)) > SCREEN_HEIGHT + 20 \<longrightarrow>
        player (update g i) = Player_update (player g) i (platforms g))
     \<and> (p_y (player g) = SCREEN_HEIGHT + 21 \<and> platforms g = level_platforms
        \<and> vel_y (player g) > - 3 / 2 \<and> \<not> (pressed_A i \<and> on_ground (player g)) \<longrightarrow>
        p_y (Player_update (player g) i (platforms g)) > SCREEN_HEIGHT + 20)"
proof -
  let ?p = "Player_update (player g) i (platforms g)"
  have a: "update g i = restart_level (play_entities g i)" if "p_y ?p > SCREEN_HEIGHT + 20"
    using that assms
    by (simp add: update_def Let_def play_entities_fields restart_level_fields
        clear_collected_apply)
  have b: "player (update g i) = ?p" if "\<not> p_y ?p > SCREEN_HEIGHT + 20"
    using that assms by (simp add: player_of_update)
  have c: "p_y ?p > SCREEN_HEIGHT + 20"
    if "p_y (player g) = SCREEN_HEIGHT + 21 \<and> platforms g = level_platforms
        \<and> vel_y (player g) > - 3 / 2 \<and> \<not> (pressed_A i \<and> on_ground (player g))"
  proof -
    from that have m: "p_y (player_move (player g) i) > SCREEN_HEIGHT + 20"
      using player_move_y_bound [of "player g" i] by simp
    then have "handle_collisions (player_move (player g) i) level_platforms
        = (player_move (player g) i)\<lparr>on_ground := False\<rparr>"
      by (simp add: handle_collisions_below_level)
    with m that show ?thesis
      by (simp add: Player_update_def clamp_x_fields)
  qed
  show ?thesis
    using a b c
    by (simp add: restart_level_fields reset_fields play_entities_fields Player_update_fields
        clear_collected_apply)
qed

theorem fall_off_resets_witness:
  "\<not> pressed_X idle \<and> \<not> game_complete fallen_game
   \<and> star fallen_game \<in> set (collectibles fallen_game)
   \<and> p_y (player fallen_game) = SCREEN_HEIGHT + 21
   \<and> platforms fallen_game = level_platforms
   \<and> vel_y (player fallen_game) > - 3 / 2
   \<and> \<not> (pressed_A idle \<and> on_ground (player fallen_game))
   \<and> score fallen_game = 10 \<and> collected (heap fallen_game 0)
   \<and> p_y (Player_update (player fallen_game) idle (platforms fallen_game)) > SCREEN_HEIGHT + 20
   \<and> update fallen_game idle = restart_level (play_entities fallen_game idle)
   \<and> p_x (player (update fallen_game idle)) = 20
   \<and> p_y (player (update fallen_game idle)) = 80
   \<and> vel_x (player (update fallen_game idle)) = 0
   \<and> vel_y (player (update fallen_game idle)) = 0
   \<and> score (update fallen_game idle) = 0
   \<and> \<not> collected (heap (update fallen_game idle) 0)
   \<and> \<not> game_complete (update fallen_game idle)
   \<and> \<not> pressed_X press_A \<and> \<not> game_complete jumping_fallen_game
   \<and> \<not> p_y (Player_update (player jumping_fallen_game) press_A (platforms jumping_fallen_game))
         > SCREEN_HEIGHT + 20
   \<and> player (update jumping_fallen_game press_A)
       = Player_update (player jumping_fallen_game) press_A (platforms jumping_fallen_game)"
proof -
  have h: "\<not> pressed_X idle" "\<not> game_complete fallen_game"
    "star fallen_game \<in> set (collectibles fallen_game)"
    by (simp_all add: fallen_game_def init_game_def idle_def)
  have k: "p_y (player fallen_game) = SCREEN_HEIGHT + 21 \<and> platforms fallen_game = level_platforms
      \<and> vel_y (player fallen_game) > - 3 / 2
      \<and> \<not> (pressed_A idle \<and> on_ground (player fallen_game))"
    by (simp add: fallen_game_def init_game_def idle_def new_Player_def)
  have e: "score fallen_game = 10" "collected (heap fallen_game 0)"
    "0 \<in> set (collectibles fallen_game)"
    "start_x (player fallen_game) = 20" "start_y (player fallen_game) = 80"
    by (simp_all add: fallen_game_def init_game_def new_Player_def)
  have j: "\<not> pressed_X press_A" "\<not> game_complete jumping_fallen_game"
    "star jumping_fallen_game \<in> set (collectibles jumping_fallen_game)"
    by (simp_all add: jumping_fallen_game_def init_game_def input_defs)
  have u: "\<not> p_y (Player_update (player jumping_fallen_game) press_A
        (platforms jumping_fallen_game)) > SCREEN_HEIGHT + 20"
    by (simp add: jumping_fallen_tick SCREEN_HEIGHT_def)
  from fall_off_resets [OF h, unfolded e(4,5)] fall_off_resets [OF j] k e(1,2,3) h j u
  show ?thesis by blast
qed

subsection \<open>The horizontal clamp\<close>

lemma Player_update_x:
  "p_x (Player_update p i pfs) =
     (let x1 = p_x p + (if button_LEFT i then - PLAYER_SPEED
                        else if button_RIGHT i then PLAYER_SPEED else 0)
      in if x1 < 0 then 0
         else if x1 + p_width p > SCREEN_WIDTH then SCREEN_WIDTH - p_width p else x1)"
  by (simp add: Player_update_def clamp_x_def handle_collisions_fields player_move_fields
      Let_def)

lemma Player_update_x_range:
  "p_width p \<le> SCREEN_WIDTH \<Longrightarrow>
   0 \<le> p_x (Player_update p i pfs) \<and> p_x (Player_update p i pfs) \<le> SCREEN_WIDTH - p_width p"
  by (simp add: Player_update_x Let_def)

lemma player_run_width: "p_width (player_run p is pfs) = p_width p"
  by (induction "is" arbitrary: p) (simp_all add: Player_update_fields)

lemma player_run_snoc:
  "player_run p (is @ [i]) pfs = Player_update (player_run p is pfs) i pfs"
  by (induction "is" arbitrary: p) simp_all

lemma player_run_x_range:
  "p_width p \<le> SCREEN_WIDTH \<Longrightarrow> is \<noteq> [] \<Longrightarrow>
   0 \<le> p_x (player_run p is pfs) \<and> p_x (player_run p is pfs) \<le> SCREEN_WIDTH - p_width p"
proof (induction "is" rule: rev_induct)
  case Nil
  then show ?case by simp
next
  case (snoc i "is")
  from snoc.prems(1) have "p_width (player_run p is pfs) \<le> SCREEN_WIDTH"
    by (simp add: player_run_width)
  from Player_update_x_range [OF this, of i pfs] show ?case
    by (simp add: player_run_snoc player_run_width)
qed

text \<open>Inside the screen, a tick with left held moves the player 2 to the left, but
  not beyond 0; a tick with right held alone moves it 2 to the right, but not beyond
  the right edge.\<close>

lemma hold_left_steps:
  assumes "p_width p = 8" and "0 \<le> p_x p" and "p_x p \<le> 112"
    and "\<forall>i \<in> set is. button_LEFT i"
  shows "p_x (player_run p is pfs) = max 0 (p_x p - 2 * real (length is))"
  using assms
proof (induction "is" arbitrary: p)
  case Nil
  then show ?case by simp
next
  case (Cons i "is")
  let ?q = "Player_update p i pfs"
  from Cons.prems have x: "p_x ?q = max 0 (p_x p - 2)"
    by (simp add: Player_update_x Let_def consts_defs max_def)
  with Cons.prems have "p_width ?q = 8" "0 \<le> p_x ?q" "p_x ?q \<le> 112"
    by (simp_all add: Player_update_fields)
  from Cons.IH [OF this] Cons.prems(4) x show ?case
    by (simp add: max_def)
qed

lemma hold_right_steps:
  assumes "p_width p = 8" and "0 \<le> p_x p" and "p_x p \<le> 112"
    and "\<forall>i \<in> set is. button_RIGHT i \<and> \<not> button_LEFT i"
  shows "p_x (player_run p is pfs) = min 112 (p_x p + 2 * real (length is))"
  using assms
proof (induction "is" arbitrary: p)
  case Nil
  then show ?case by simp
next
  case (Cons i "is")
  let ?q = "Player_update p i pfs"
  from Cons.prems(4) have i: "button_RIGHT i" "\<not> button_LEFT i"
    and r: "\<forall>j \<in> set is. button_RIGHT j \<and> \<not> button_LEFT j"
    by simp_all
  from i Cons.prems(1,2,3) have x: "p_x ?q = (if p_x p + 2 > 112 then 112 else p_x p + 2)"
    by (simp add: Player_update_x Let_def consts_defs)
  with Cons.prems(1,2,3) have q: "p_width ?q = 8" "0 \<le> p_x ?q" "p_x ?q \<le> 112"
    by (simp_all add: Player_update_fields)
  have "p_x (player_run ?q is pfs) = min 112 (p_x ?q + 2 * real (length is))"
    by (rule Cons.IH [OF q r])
  with x show ?case
    by (simp add: min_def)
qed

lemma hold_left_converges:
  assumes "p_width p = 8" and "\<forall>i \<in> set is. button_LEFT i" and "57 \<le> length is"
  shows "p_x (player_run p is pfs) = 0"
proof -
  from assms(3) obtain i js where s: "is = i # js"
    by (cases "is") auto
  let ?q = "Player_update p i pfs"
  from assms(1) have q: "p_width ?q = 8" "0 \<le> p_x ?q" "p_x ?q \<le> 112"
    using Player_update_x_range [of p i pfs] by (simp_all add: Player_update_fields consts_defs)
  from assms(3) s have n: "56 \<le> real (length js)"
    by simp
  from assms(2) s have "p_x (player_run ?q js pfs) = max 0 (p_x ?q - 2 * real (length js))"
    using hold_left_steps [OF q, of js pfs] by simp
  with q(2,3) n s show ?thesis
    by simp
qed

lemma hold_right_converges:
  assumes "p_width p = 8" and "\<forall>i \<in> set is. button_RIGHT i \<and> \<not> button_LEFT i"
    and "57 \<le> length is"
  shows "p_x (player_run p is pfs) = 112"
proof -
  from assms(3) obtain i js where s: "is = i # js"
    by (cases "is") auto
  let ?q = "Player_update p i pfs"
  from assms(1) have q: "p_width ?q = 8" "0 \<le> p_x ?q" "p_x ?q \<le> 112"
    using Player_update_x_range [of p i pfs] by (simp_all add: Player_update_fields consts_defs)
  from assms(3) s have n: "56 \<le> real (length js)"
    by simp
  from assms(2) s have "p_x (player_run ?q js pfs) = min 112 (p_x ?q + 2 * real (length js))"
    using hold_right_steps [OF q, of js pfs] by simp
  with q(2,3) n s show ?thesis
    by simp
qed

text \<open>The same bounds on the player of the game, tick after tick.\<close>

lemma update_x_range:
  assumes "p_width (player g) = 8" and "start_x (player g) = 20"
    and "0 \<le> p_x (player g) \<and> p_x (player g) \<le> 112"
  shows "0 \<le> p_x (player (update g i)) \<and> p_x (player (update g i)) \<le> 112"
proof -
  have "0 \<le> p_x (Player_update (player g) i (platforms g))
      \<and> p_x (Player_update (player g) i (platforms g)) \<le> 112"
    using Player_update_x_range [of "player g" i "platforms g"] assms(1)
    by (simp add: consts_defs)
  with assms show ?thesis
    by (simp add: update_def Let_def restart_level_fields reset_fields play_entities_fields
        Player_update_fields)
qed

lemma run_x_range:
  assumes "p_width (player g) = 8" and "start_x (player g) = 20"
    and "0 \<le> p_x (player g) \<and> p_x (player g) \<le> 112"
  shows "0 \<le> p_x (player (run g ins)) \<and> p_x (player (run g ins)) \<le> 112"
  using assms
proof (induction ins arbitrary: g)
  case Nil
  then show ?case by simp
next
  case (Cons i ins)
  from Cons.prems have "p_width (player (update g i)) = 8" "start_x (player (update g i)) = 20"
    by (simp_all add: update_static)
  from Cons.IH [OF this update_x_range [OF Cons.prems]] show ?case by simp
qed

subsection \<open>Pickups and the score\<close>

lemma collectible_update_fields:
  "collected (collectible_update c) = collected c"
  "is_star (collectible_update c) = is_star c"
  "tick_counter (collectible_update c) = tick_counter c + 1"
  "c_x (collectible_update c) = c_x c" "c_y (collectible_update c) = c_y c"
  "c_width (collectible_update c) = c_width c" "c_height (collectible_update c) = c_height c"
  by (simp_all add: collectible_update_def Let_def)

lemma collect_one_eq:
  "collect_one p a (h, s) =
     (h(a := (collectible_update (h a))\<lparr>collected := collected (h a) \<or> picks_up p (h a)\<rparr>),
      s + (if picks_up p (h a) then 10 else 0))"
  by (auto simp add: collect_one_def Let_def picks_up_def collectible_update_fields)

lemma collect_loop_distinct:
  "distinct as \<Longrightarrow>
   collect_loop p as (h, s) =
     (\<lambda>a. if a \<in> set as
           then (collectible_update (h a))\<lparr>collected := collected (h a) \<or> picks_up p (h a)\<rparr>
           else h a,
      s + 10 * int (length (filter (\<lambda>a. picks_up p (h a)) as)))"
proof (induction as arbitrary: h s)
  case Nil
  then show ?case by simp
next
  case (Cons a as)
  define h' where
    "h' = h(a := (collectible_update (h a))\<lparr>collected := collected (h a) \<or> picks_up p (h a)\<rparr>)"
  define k where "k = (if picks_up p (h a) then 10 else 0 :: int)"
  from Cons.prems have d: "distinct as" and n: "a \<notin> set as"
    by simp_all
  have o: "h' b = h b" if "b \<in> set as" for b
    using that n by (auto simp add: h'_def)
  then have f: "filter (\<lambda>b. picks_up p (h' b)) as = filter (\<lambda>b. picks_up p (h b)) as"
    by (intro filter_cong) auto
  have "collect_loop p (a # as) (h, s) = collect_loop p as (h', s + k)"
    by (simp add: collect_one_eq h'_def k_def)
  also have "\<dots> =
     (\<lambda>b. if b \<in> set as
           then (collectible_update (h' b))\<lparr>collected := collected (h' b) \<or> picks_up p (h' b)\<rparr>
           else h' b,
      s + k + 10 * int (length (filter (\<lambda>b. picks_up p (h' b)) as)))"
    by (rule Cons.IH [OF d])
  also have "\<dots> =
     (\<lambda>b. if b \<in> set (a # as)
           then (collectible_update (h b))\<lparr>collected := collected (h b) \<or> picks_up p (h b)\<rparr>
           else h b,
      s + 10 * int (length (filter (\<lambda>b. picks_up p (h b)) (a # as))))"
    unfolding f using o n by (auto simp add: fun_eq_iff k_def h'_def)
  finally show ?case .
qed

lemma collect_loop_score_mono: "snd hs \<le> snd (collect_loop p as hs)"
proof (induction as arbitrary: hs)
  case Nil
  then show ?case by simp
next
  case (Cons a as)
  have "snd hs \<le> snd (collect_one p a hs)"
    by (cases hs) (simp add: collect_one_eq)
  also have "\<dots> \<le> snd (collect_loop p as (collect_one p a hs))"
    by (rule Cons.IH)
  finally show ?case by simp
qed

lemma collect_loop_is_star:
  "is_star (fst (collect_loop p as hs) a) = is_star (fst hs a)"
proof (induction as arbitrary: hs)
  case Nil
  then show ?case by simp
next
  case (Cons b as)
  have "is_star (fst (collect_one p b hs) a) = is_star (fst hs a)"
    by (cases hs) (simp add: collect_one_eq collectible_update_fields)
  with Cons.IH [of "collect_one p b hs"] show ?case by simp
qed

lemma collect_loop_keeps_collected:
  "collected (fst hs a) \<Longrightarrow> collected (fst (collect_loop p as hs) a)"
proof (induction as arbitrary: hs)
  case Nil
  then show ?case by simp
next
  case (Cons b as)
  from Cons.prems have "collected (fst (collect_one p b hs) a)"
    by (cases hs) (auto simp add: collect_one_eq collectible_update_fields)
  from Cons.IH [OF this] show ?case by simp
qed

lemma play_entities_distinct:
  assumes "distinct (collectibles g)"
  shows "heap (play_entities g i) a =
       (if a \<in> set (collectibles g)
        then (collectible_update (heap g a))
               \<lparr>collected := collected (heap g a)
                  \<or> picks_up (Player_update (player g) i (platforms g)) (heap g a)\<rparr>
        else heap g a)"
    and "score (play_entities g i) =
       score g + 10 * int (length (filter
         (\<lambda>a. picks_up (Player_update (player g) i (platforms g)) (heap g a)) (collectibles g)))"
  by (simp_all add: play_entities_fields collect_loop_distinct [OF assms])

text \<open>A tick that is not a restart tick and finds the game playing: only the flag
  \<^verbatim>\<open>game_complete\<close> can differ from what the entities' updates produced.\<close>

lemma update_playing:
  assumes "\<not> restart_tick g i" and "\<not> game_complete g"
  shows "heap (update g i) = heap (play_entities g i)"
    and "score (update g i) = score (play_entities g i)"
    and "game_complete (update g i) = collected (heap (play_entities g i) (star g))"
  using assms
  by (simp_all add: update_def restart_tick_def Let_def play_entities_fields)

lemma update_complete:
  "\<not> restart_tick g i \<Longrightarrow> game_complete g \<Longrightarrow> update g i = g"
  by (simp add: update_def restart_tick_def)

lemma update_restart_tick:
  assumes "restart_tick g i"
  shows "score (update g i) = 0"
    and "a \<in> set (collectibles g) \<Longrightarrow> \<not> collected (heap (update g i) a)"
    and "star g \<in> set (collectibles g) \<Longrightarrow> \<not> game_complete (update g i)"
  using assms
  by (auto simp add: update_def restart_tick_def Let_def play_entities_fields
      restart_level_fields clear_collected_apply)

lemma filter_length_disj:
  "(\<And>a. a \<in> set xs \<Longrightarrow> Q a \<Longrightarrow> \<not> P a) \<Longrightarrow>
   length (filter (\<lambda>a. P a \<or> Q a) xs) = length (filter P xs) + length (filter Q xs)"
  by (induction xs) auto

lemma update_score_pickups:
  assumes "distinct (collectibles g)" and "\<not> restart_tick g i"
  shows "score (update g i) =
     score g + 10 * int (length (filter
       (\<lambda>a. \<not> collected (heap g a) \<and> collected (heap (update g i) a)) (collectibles g)))"
proof (cases "game_complete g")
  case True
  with assms(2) show ?thesis
    by (simp add: update_complete)
next
  case False
  let ?p = "Player_update (player g) i (platforms g)"
  have "filter (\<lambda>a. \<not> collected (heap g a) \<and> collected (heap (update g i) a)) (collectibles g)
      = filter (\<lambda>a. picks_up ?p (heap g a)) (collectibles g)"
    by (intro filter_cong)
      (auto simp add: update_playing [OF assms(2) False] play_entities_distinct [OF assms(1)]
        picks_up_def)
  then show ?thesis
    by (simp add: update_playing [OF assms(2) False] play_entities_distinct [OF assms(1)])
qed

lemma update_keeps_collected:
  assumes "\<not> restart_tick g i" and "collected (heap g a)"
  shows "collected (heap (update g i) a)"
proof (cases "game_complete g")
  case True
  with assms show ?thesis
    by (simp add: update_complete)
next
  case False
  from assms(2) show ?thesis
    by (simp add: update_playing [OF assms(1) False] play_entities_fields
        collect_loop_keeps_collected)
qed

lemma update_score_mono:
  assumes "\<not> restart_tick g i"
  shows "score g \<le> score (update g i)"
proof (cases "game_complete g")
  case True
  with assms show ?thesis
    by (simp add: update_complete)
next
  case False
  have "snd (heap g, score g)
      \<le> snd (collect_loop (Player_update (player g) i (platforms g)) (collectibles g)
          (heap g, score g))"
    by (rule collect_loop_score_mono)
  then show ?thesis
    by (simp add: update_playing [OF assms False] play_entities_fields)
qed

text \<open>The score is ten times the number of collected collectibles: kept by a tick.\<close>

lemma update_score_count:
  assumes "distinct (collectibles g)" and "score g = 10 * int (collected_count g)"
  shows "score (update g i) = 10 * int (collected_count (update g i))"
proof (cases "restart_tick g i")
  case True
  have "filter (\<lambda>a. collected (heap (update g i) a)) (collectibles g) = []"
    using update_restart_tick(2) [OF True] by (simp add: filter_empty_conv)
  then show ?thesis
    by (simp add: update_restart_tick(1) [OF True] collected_count_def update_static)
next
  case n: False
  show ?thesis
  proof (cases "game_complete g")
    case True
    with n assms show ?thesis
      by (simp add: update_complete)
  next
    case False
    let ?p = "Player_update (player g) i (platforms g)"
    have "filter (\<lambda>a. collected (heap (update g i) a)) (collectibles g)
        = filter (\<lambda>a. collected (heap g a) \<or> picks_up ?p (heap g a)) (collectibles g)"
      by (intro filter_cong)
        (auto simp add: update_playing [OF n False] play_entities_distinct [OF assms(1)])
    moreover have "length (filter (\<lambda>a. collected (heap g a) \<or> picks_up ?p (heap g a))
          (collectibles g))
        = length (filter (\<lambda>a. collected (heap g a)) (collectibles g))
          + length (filter (\<lambda>a. picks_up ?p (heap g a)) (collectibles g))"
      by (rule filter_length_disj) (simp add: picks_up_def)
    ultimately show ?thesis
      using assms(2)
      by (simp add: update_playing [OF n False] play_entities_distinct [OF assms(1)]
          collected_count_def update_static)
  qed
qed

lemma run_score_count:
  assumes "distinct (collectibles g)" and "score g = 10 * int (collected_count g)"
  shows "score (run g ins) = 10 * int (collected_count (run g ins))"
  using assms
proof (induction ins arbitrary: g)
  case Nil
  then show ?case by simp
next
  case (Cons i ins)
  from Cons.prems(1) have "distinct (collectibles (update g i))"
    by (simp add: update_static)
  from Cons.IH [OF this update_score_count [OF Cons.prems]] show ?case by simp
qed

lemma init_game_score_count: "score init_game = 10 * int (collected_count init_game)"
  by (simp add: init_game_def collected_count_def level_heap_def new_Collectible_def)

text \<open>The bob offset stays within 2 units: two tests that decide a pickup without
  the value of the sine.\<close>

lemma picks_up_apart:
  "p_x p + p_width p \<le> c_x c \<or> c_x c + c_width c \<le> p_x p \<or> collected c \<Longrightarrow> \<not> picks_up p c"
  by (auto simp add: picks_up_def player_rect_def c_get_rect_def collectible_update_def Let_def)

lemma bob_offset_bounds:
  "- 2 \<le> bob_offset (collectible_update c) \<and> bob_offset (collectible_update c) \<le> 2"
proof -
  have "- 2 \<le> sin x * 2 \<and> sin x * 2 \<le> 2" for x :: real
    using sin_le_one [of x] sin_ge_minus_one [of x] by linarith
  then show ?thesis
    by (simp add: collectible_update_def Let_def)
qed

lemma picks_up_inside:
  assumes "\<not> collected c" and "p_x p < c_x c + c_width c" and "c_x c < p_x p + p_width p"
    and "p_y p < c_y c - 2 + c_height c" and "c_y c + 2 < p_y p + p_height p"
  shows "picks_up p c"
proof -
  have "c_get_rect (collectible_update c)
      = (c_x c, c_y c + bob_offset (collectible_update c), c_width c, c_height c)"
    by (simp add: c_get_rect_def collectible_update_fields)
  with assms bob_offset_bounds [of c] show ?thesis
    by (simp add: picks_up_def player_rect_def)
qed

lemma clear_of_no_pickup: "clear_of p c \<Longrightarrow> \<not> picks_up p c"
proof -
  have "c_get_rect (collectible_update c)
      = (c_x c, c_y c + bob_offset (collectible_update c), c_width c, c_height c)"
    by (simp add: c_get_rect_def collectible_update_fields)
  with bob_offset_bounds [of c] show "clear_of p c \<Longrightarrow> \<not> picks_up p c"
    by (auto simp add: picks_up_def player_rect_def clear_of_def)
qed

lemma collected_False_same: "\<not> collected c \<Longrightarrow> c\<lparr>collected := False\<rparr> = c"
  by (cases c) simp

lemma near_coin_tick:
  "Player_update (player near_coin_game) idle (platforms near_coin_game)
     = (new_Player 20 80)\<lparr>p_x := 36, p_y := 161 / 2, vel_y := 1 / 2\<rparr>"
  by (simp add: near_coin_game_def init_game_def tick_defs)

text \<open>
  Claim C4. In every game that ran from the initial one, the score is 10 times the
  number of collectibles, the star among them, whose flag \<^verbatim>\<open>collected\<close> is set. On a
  tick of any game the score decreases only if \<^verbatim>\<open>restart_level\<close> runs on that tick;
  on any other tick it grows by 10 for each collectible whose flag goes from false to
  true, and a flag that is set stays set.
\<close>

theorem score_counts_pickups:
  "score (run init_game ins) = 10 * int (collected_count (run init_game ins))
   \<and> star (run init_game ins) \<in> set (collectibles (run init_game ins))
   \<and> distinct (collectibles (run init_game ins))
   \<and> (score (update g i) < score g \<longrightarrow> restart_tick g i)
   \<and> (distinct (collectibles g) \<and> \<not> restart_tick g i \<longrightarrow>
        score (update g i) =
          score g + 10 * int (length (filter
            (\<lambda>a. \<not> collected (heap g a) \<and> collected (heap (update g i) a)) (collectibles g))))
   \<and> (\<not> restart_tick g i \<and> collected (heap g a) \<longrightarrow> collected (heap (update g i) a))"
proof -
  have d: "distinct (collectibles init_game)" "star init_game \<in> set (collectibles init_game)"
    by (simp_all add: init_game_def)
  have "score (run init_game ins) = 10 * int (collected_count (run init_game ins))"
    by (rule run_score_count [OF d(1) init_game_score_count])
  moreover have "score (update g i) < score g \<longrightarrow> restart_tick g i"
    using update_score_mono [of g i] by (cases "restart_tick g i") auto
  ultimately show ?thesis
    using d update_score_pickups [of g i] update_keeps_collected [of g i a]
    by (simp add: run_static)
qed

theorem score_counts_pickups_witness:
  "distinct (collectibles near_coin_game) \<and> \<not> restart_tick near_coin_game idle
   \<and> score near_coin_game = 10 \<and> score (update near_coin_game idle) = 20
   \<and> length (filter
        (\<lambda>a. \<not> collected (heap near_coin_game a)
              \<and> collected (heap (update near_coin_game idle) a))
        (collectibles near_coin_game)) = 1
   \<and> collected (heap near_coin_game 1) \<and> collected (heap (update near_coin_game idle) 1)
   \<and> score (run init_game []) = 10 * int (collected_count (run init_game []))"
proof -
  let ?p = "Player_update (player near_coin_game) idle (platforms near_coin_game)"
  have h: "distinct (collectibles near_coin_game)" "\<not> game_complete near_coin_game"
    "score near_coin_game = 10" "collected (heap near_coin_game 1)"
    by (simp_all add: near_coin_game_def init_game_def)
  have n: "\<not> restart_tick near_coin_game idle"
    by (simp add: restart_tick_def near_coin_tick h) (simp add: new_Player_def consts_defs idle_def)
  have y: "picks_up ?p (heap near_coin_game 0)"
    unfolding near_coin_tick
    by (rule picks_up_inside)
      (simp_all add: near_coin_game_def init_game_def level_heap_def new_Collectible_def
        new_Player_def)
  have z: "\<not> picks_up ?p (heap near_coin_game a)" if "a \<in> {1, 2, 3, 4, 5, 6, 7}" for a
    unfolding near_coin_tick
    by (rule picks_up_apart) (use that in \<open>auto simp add: near_coin_game_def init_game_def
        level_heap_def new_Collectible_def new_Player_def\<close>)
  have cs: "collectibles near_coin_game = [0, 1, 2, 3, 4, 5, 6, 7]"
    by (simp add: near_coin_game_def init_game_def)
  have "filter (\<lambda>a. picks_up ?p (heap near_coin_game a)) (collectibles near_coin_game) = [0]"
    using y z by (simp add: cs)
  then have s: "score (update near_coin_game idle) = 20"
    by (simp add: update_playing(2) [OF n h(2)] play_entities_distinct(2) [OF h(1)] h(3))
  from score_counts_pickups [of "[]" near_coin_game idle 1] h n s
  show ?thesis by simp
qed

subsection \<open>Completing the game\<close>

lemma update_is_star: "is_star (heap (update g i) a) = is_star (heap g a)"
  by (simp add: update_def Let_def restart_level_fields clear_collected_apply
      play_entities_fields collect_loop_is_star)

lemma run_is_star: "is_star (heap (run g ins) a) = is_star (heap g a)"
  by (induction ins arbitrary: g) (simp_all add: update_is_star)

text \<open>The game is complete exactly when the star is collected: kept by a tick.\<close>

lemma update_complete_iff_star:
  assumes "star g \<in> set (collectibles g)"
    and "game_complete g = collected (heap g (star g))"
  shows "game_complete (update g i) = collected (heap (update g i) (star (update g i)))"
proof (cases "pressed_X i")
  case True
  with assms(1) show ?thesis
    by (simp add: update_def restart_level_fields clear_collected_apply)
next
  case x: False
  show ?thesis
  proof (cases "game_complete g")
    case True
    with x assms(2) show ?thesis
      by (simp add: update_def)
  next
    case False
    with x assms(1) show ?thesis
      by (simp add: update_def Let_def restart_level_fields clear_collected_apply
          play_entities_fields)
  qed
qed

lemma run_complete_iff_star:
  assumes "star g \<in> set (collectibles g)"
    and "game_complete g = collected (heap g (star g))"
  shows "game_complete (run g ins) = collected (heap (run g ins) (star (run g ins)))"
  using assms
proof (induction ins arbitrary: g)
  case Nil
  then show ?case by simp
next
  case (Cons i ins)
  from Cons.prems(1) have "star (update g i) \<in> set (collectibles (update g i))"
    by (simp add: update_static)
  from Cons.IH [OF this update_complete_iff_star [OF Cons.prems]] show ?case by simp
qed

text \<open>The game becomes complete only by picking up the star on that tick.\<close>

lemma completes_by_pickup:
  assumes "distinct (collectibles g)" and "star g \<in> set (collectibles g)"
    and "\<not> collected (heap g (star g))" and "\<not> game_complete g"
    and "game_complete (update g i)"
  shows "\<not> restart_tick g i"
    and "picks_up (Player_update (player g) i (platforms g)) (heap g (star g))"
proof -
  show n: "\<not> restart_tick g i"
    using update_restart_tick(3) [of g i] assms(2,5) by blast
  from assms(5) have "collected (heap (play_entities g i) (star g))"
    by (simp add: update_playing(3) [OF n assms(4)])
  with assms(2,3) show "picks_up (Player_update (player g) i (platforms g)) (heap g (star g))"
    by (simp add: play_entities_distinct(1) [OF assms(1)])
qed

lemma collect_loop_static:
  "c_x (fst (collect_loop p as hs) a) = c_x (fst hs a)
   \<and> c_y (fst (collect_loop p as hs) a) = c_y (fst hs a)
   \<and> c_width (fst (collect_loop p as hs) a) = c_width (fst hs a)
   \<and> c_height (fst (collect_loop p as hs) a) = c_height (fst hs a)"
proof (induction as arbitrary: hs)
  case Nil
  then show ?case by simp
next
  case (Cons b as)
  have "c_x (fst (collect_one p b hs) a) = c_x (fst hs a)
      \<and> c_y (fst (collect_one p b hs) a) = c_y (fst hs a)
      \<and> c_width (fst (collect_one p b hs) a) = c_width (fst hs a)
      \<and> c_height (fst (collect_one p b hs) a) = c_height (fst hs a)"
    by (cases hs) (simp add: collect_one_eq collectible_update_fields)
  with Cons.IH [of "collect_one p b hs"] show ?case by simp
qed

lemma update_collectible_static:
  "c_x (heap (update g i) a) = c_x (heap g a) \<and> c_y (heap (update g i) a) = c_y (heap g a)
   \<and> c_width (heap (update g i) a) = c_width (heap g a)
   \<and> c_height (heap (update g i) a) = c_height (heap g a)"
  by (simp add: update_def Let_def restart_level_fields clear_collected_apply
      play_entities_fields collect_loop_static)

lemma run_collectible_static:
  "c_x (heap (run g ins) a) = c_x (heap g a) \<and> c_y (heap (run g ins) a) = c_y (heap g a)
   \<and> c_width (heap (run g ins) a) = c_width (heap g a)
   \<and> c_height (heap (run g ins) a) = c_height (heap g a)"
  by (induction ins arbitrary: g) (simp_all add: update_collectible_static)

text \<open>Quiet ticks leave the game playing and the collectible uncollected, and move
  the player as \<^verbatim>\<open>Player.update\<close> alone does.\<close>

lemma quiet_run_sound:
  assumes "distinct (collectibles g)" and "star g \<in> set (collectibles g)"
    and "\<not> game_complete g" and "\<not> collected (heap g (star g))"
    and "quiet_run (player g) (platforms g) (heap g (star g)) ins"
  shows "\<not> game_complete (run g ins) \<and> \<not> collected (heap (run g ins) (star g))
     \<and> player (run g ins) = player_run (player g) ins (platforms g)"
  using assms
proof (induction ins arbitrary: g)
  case Nil
  then show ?case by simp
next
  case (Cons i ins)
  let ?p = "Player_update (player g) i (platforms g)"
  from Cons.prems(5) have q: "\<not> pressed_X i" "p_y ?p \<le> SCREEN_HEIGHT + 20"
    "clear_of ?p (heap g (star g))"
    "quiet_run ?p (platforms g) (collectible_update (heap g (star g))) ins"
    by simp_all
  from q(1,2) have n: "\<not> restart_tick g i"
    by (simp add: restart_tick_def)
  from q(3) have k: "\<not> picks_up ?p (heap g (star g))"
    by (rule clear_of_no_pickup)
  have h: "heap (update g i) (star g) = collectible_update (heap g (star g))"
    using Cons.prems(2,4) k
    by (simp add: update_playing(1) [OF n Cons.prems(3)]
        play_entities_distinct(1) [OF Cons.prems(1)] collected_False_same
        collectible_update_fields)
  have c: "\<not> game_complete (update g i)"
    using Cons.prems(2,4) k
    by (simp add: update_playing(3) [OF n Cons.prems(3)]
        play_entities_distinct(1) [OF Cons.prems(1)] collectible_update_fields)
  have p: "player (update g i) = ?p"
    using q(1,2) Cons.prems(3) by (simp add: player_of_update)
  have "\<not> game_complete (run (update g i) ins)
      \<and> \<not> collected (heap (run (update g i) ins) (star (update g i)))
      \<and> player (run (update g i) ins)
          = player_run (player (update g i)) ins (platforms (update g i))"
    using Cons.prems(1,2,4) c q(4)
    by (intro Cons.IH) (simp_all add: update_static h p collectible_update_fields)
  then show ?case
    by (simp add: update_static p)
qed

text \<open>Thirty-four ticks bring the player of the new game next to the star, which it
  has not touched; the thirty-fifth picks the star up.\<close>

lemma winning_player:
  "player_run (new_Player 20 80) winning_inputs level_platforms
     = (new_Player 20 80)\<lparr>p_x := 46, p_y := 5, vel_x := 2, vel_y := 3 / 2\<rparr>"
  by (simp add: winning_inputs_def tick_defs)

lemma winning_quiet:
  "quiet_run (new_Player 20 80) level_platforms (level_heap 7) winning_inputs"
  by (simp add: winning_inputs_def tick_defs clear_of_def collectible_update_fields
      level_heap_def new_Collectible_def)

lemma winning_run:
  "\<not> game_complete (run init_game winning_inputs)"
  "\<not> collected (heap (run init_game winning_inputs) 7)"
  "player (run init_game winning_inputs)
     = (new_Player 20 80)\<lparr>p_x := 46, p_y := 5, vel_x := 2, vel_y := 3 / 2\<rparr>"
proof -
  have "\<not> game_complete (run init_game winning_inputs)
      \<and> \<not> collected (heap (run init_game winning_inputs) (star init_game))
      \<and> player (run init_game winning_inputs)
          = player_run (player init_game) winning_inputs (platforms init_game)"
    by (rule quiet_run_sound)
      (simp_all add: init_game_fields winning_quiet, simp_all add: level_heap_def
        new_Collectible_def)
  then show "\<not> game_complete (run init_game winning_inputs)"
    "\<not> collected (heap (run init_game winning_inputs) 7)"
    "player (run init_game winning_inputs)
       = (new_Player 20 80)\<lparr>p_x := 46, p_y := 5, vel_x := 2, vel_y := 3 / 2\<rparr>"
    by (simp_all add: init_game_fields winning_player)
qed

lemma winning_tick:
  "Player_update (player (run init_game winning_inputs)) hold_RIGHT
       (platforms (run init_game winning_inputs))
     = (new_Player 20 80)\<lparr>p_x := 48, p_y := 7, vel_x := 2, vel_y := 2\<rparr>"
  by (simp add: winning_run(3) run_static init_game_fields) (simp add: tick_defs)

lemma winning_pickup:
  "picks_up (Player_update (player (run init_game winning_inputs)) hold_RIGHT
       (platforms (run init_game winning_inputs)))
     (heap (run init_game winning_inputs) 7)"
  unfolding winning_tick
  by (rule picks_up_inside)
    (simp_all add: winning_run(2) run_collectible_static init_game_fields level_heap_def
      new_Collectible_def new_Player_def)

text \<open>
  Claim C1. In every game that ran from the initial one, \<^verbatim>\<open>game_complete\<close> is true
  exactly when the star's flag \<^verbatim>\<open>collected\<close> is true, and exactly one collectible of
  the game is the star. \<^verbatim>\<open>game_complete\<close> becomes true only on a tick without restart
  input on which the player's rectangle, after the player's update, overlaps the star's
  rectangle, after the star's update; this holds in every such game and, more generally,
  in every game whose star is an uncollected member of a duplicate-free list of
  collectibles.
\<close>

theorem complete_iff_star_collected:
  "game_complete (run init_game ins)
     = collected (heap (run init_game ins) (star (run init_game ins)))
   \<and> filter (\<lambda>a. is_star (heap (run init_game ins) a)) (collectibles (run init_game ins))
       = [star (run init_game ins)]
   \<and> distinct (collectibles (run init_game ins))
   \<and> (\<not> game_complete (run init_game ins) \<and> game_complete (update (run init_game ins) i) \<longrightarrow>
        \<not> pressed_X i
        \<and> rect_collision
            (player_rect (Player_update (player (run init_game ins)) i
               (platforms (run init_game ins))))
            (c_get_rect (collectible_update
               (heap (run init_game ins) (star (run init_game ins))))))
   \<and> (distinct (collectibles g) \<and> star g \<in> set (collectibles g)
        \<and> \<not> collected (heap g (star g)) \<and> \<not> game_complete g
        \<and> game_complete (update g i) \<longrightarrow>
        \<not> pressed_X i
        \<and> rect_collision (player_rect (Player_update (player g) i (platforms g)))
            (c_get_rect (collectible_update (heap g (star g)))))"
proof -
  let ?r = "run init_game ins"
  have d: "distinct (collectibles ?r)" and s: "star ?r \<in> set (collectibles ?r)"
    by (simp_all add: run_static init_game_def)
  have c: "game_complete ?r = collected (heap ?r (star ?r))"
    by (rule run_complete_iff_star) (simp_all add: init_game_def level_heap_def
        new_Collectible_def)
  have f: "filter (\<lambda>a. is_star (heap ?r a)) (collectibles ?r) = [star ?r]"
    by (simp add: run_is_star run_static) (simp add: init_game_def level_heap_def
        new_Collectible_def)
  have p: "\<not> pressed_X i
      \<and> rect_collision (player_rect (Player_update (player g) i (platforms g)))
          (c_get_rect (collectible_update (heap g (star g))))"
    if "distinct (collectibles g)" "star g \<in> set (collectibles g)"
      "\<not> collected (heap g (star g))" "\<not> game_complete g" "game_complete (update g i)"
    for g
    using completes_by_pickup [OF that] by (simp add: restart_tick_def picks_up_def)
  from p [of ?r] d s c have "\<not> game_complete ?r \<and> game_complete (update ?r i) \<longrightarrow>
        \<not> pressed_X i
        \<and> rect_collision (player_rect (Player_update (player ?r) i (platforms ?r)))
            (c_get_rect (collectible_update (heap ?r (star ?r))))"
    by blast
  with d c f p [of g] show ?thesis by blast
qed

theorem complete_iff_star_collected_witness:
  "\<not> game_complete (run init_game winning_inputs)
   \<and> game_complete (update (run init_game winning_inputs) hold_RIGHT)
   \<and> distinct (collectibles (run init_game winning_inputs))
   \<and> star (run init_game winning_inputs) \<in> set (collectibles (run init_game winning_inputs))
   \<and> \<not> collected (heap (run init_game winning_inputs) (star (run init_game winning_inputs)))
   \<and> \<not> pressed_X hold_RIGHT
   \<and> rect_collision
       (player_rect (Player_update (player (run init_game winning_inputs)) hold_RIGHT
          (platforms (run init_game winning_inputs))))
       (c_get_rect (collectible_update
          (heap (run init_game winning_inputs) (star (run init_game winning_inputs)))))
   \<and> filter (\<lambda>a. is_star (heap (run init_game winning_inputs) a))
        (collectibles (run init_game winning_inputs)) = [7]"
proof -
  let ?g = "run init_game winning_inputs"
  have s: "star ?g = 7" "distinct (collectibles ?g)" "star ?g \<in> set (collectibles ?g)"
    by (simp_all add: run_static init_game_fields)
  have h: "\<not> game_complete ?g" "\<not> collected (heap ?g (star ?g))"
    by (simp_all add: winning_run s(1))
  have y: "\<not> restart_tick ?g hold_RIGHT"
    by (simp add: restart_tick_def winning_tick h(1))
      (simp add: input_defs new_Player_def consts_defs)
  have c: "game_complete (update ?g hold_RIGHT)"
    using winning_pickup s(3)
    by (simp add: update_playing(3) [OF y h(1)] play_entities_distinct(1) [OF s(2)] s(1))
  from complete_iff_star_collected [of winning_inputs hold_RIGHT ?g] h c s
  show ?thesis by simp
qed

subsection \<open>The horizontal clamp over game ticks\<close>

text \<open>While every tick runs the player's update and keeps it, the player of the game
  moves as \<^verbatim>\<open>Player.update\<close> alone moves it; a complete game without restart input
  stays as it is.\<close>

lemma playing_run_player:
  "playing_run g ins \<Longrightarrow> player (run g ins) = player_run (player g) ins (platforms g)"
proof (induction ins arbitrary: g)
  case Nil
  then show ?case by simp
next
  case (Cons i ins)
  from Cons.prems have n: "\<not> pressed_X i" "\<not> game_complete g"
    "\<not> p_y (Player_update (player g) i (platforms g)) > SCREEN_HEIGHT + 20"
    and r: "playing_run (update g i) ins"
    by (auto simp add: restart_tick_def)
  from n have "player (update g i) = Player_update (player g) i (platforms g)"
    by (simp add: player_of_update)
  with Cons.IH [OF r] show ?case
    by (simp add: update_static)
qed

lemma quiet_run_playing:
  assumes "distinct (collectibles g)" and "star g \<in> set (collectibles g)"
    and "\<not> game_complete g" and "\<not> collected (heap g (star g))"
    and "quiet_run (player g) (platforms g) (heap g (star g)) ins"
  shows "playing_run g ins"
  using assms
proof (induction ins arbitrary: g)
  case Nil
  then show ?case by simp
next
  case (Cons i ins)
  let ?p = "Player_update (player g) i (platforms g)"
  from Cons.prems(5) have q: "\<not> pressed_X i" "p_y ?p \<le> SCREEN_HEIGHT + 20"
    "clear_of ?p (heap g (star g))"
    "quiet_run ?p (platforms g) (collectible_update (heap g (star g))) ins"
    by simp_all
  from q(1,2) have n: "\<not> restart_tick g i"
    by (simp add: restart_tick_def)
  have o: "quiet_run (player g) (platforms g) (heap g (star g)) [i]"
    using q(1,2,3) by simp
  from quiet_run_sound [OF Cons.prems(1,2,3,4) o]
  have s: "\<not> game_complete (update g i)" "\<not> collected (heap (update g i) (star g))"
    "player (update g i) = ?p"
    by simp_all
  from q(3) have k: "\<not> picks_up ?p (heap g (star g))"
    by (rule clear_of_no_pickup)
  have h: "heap (update g i) (star g) = collectible_update (heap g (star g))"
    using Cons.prems(2,4) k
    by (simp add: update_playing(1) [OF n Cons.prems(3)]
        play_entities_distinct(1) [OF Cons.prems(1)] collected_False_same
        collectible_update_fields)
  have "playing_run (update g i) ins"
    using Cons.prems(1,2) s q(4)
    by (intro Cons.IH) (simp_all add: update_static h)
  with n Cons.prems(3) show ?case by simp
qed

lemma complete_run_same:
  "game_complete g \<Longrightarrow> \<forall>i \<in> set ins. \<not> pressed_X i \<Longrightarrow> run g ins = g"
  by (induction ins) (simp_all add: update_def)

text \<open>Fifty-seven ticks with left held, or with right held, keep the new game
  playing: the player stays far below the star and on the screen.\<close>

lemma left_quiet:
  "quiet_run (new_Player 20 80) level_platforms (level_heap 7) (replicate 57 hold_LEFT)"
  by (simp add: eval_nat_numeral tick_defs clear_of_def collectible_update_fields
      level_heap_def new_Collectible_def)

lemma left_playing: "playing_run init_game (replicate 57 hold_LEFT)"
  by (rule quiet_run_playing)
    (simp_all add: init_game_fields left_quiet, simp_all add: level_heap_def
      new_Collectible_def)

lemma right_quiet:
  "quiet_run (new_Player 20 80) level_platforms (level_heap 7) (replicate 57 hold_RIGHT)"
  by (simp add: eval_nat_numeral tick_defs clear_of_def collectible_update_fields
      level_heap_def new_Collectible_def)

lemma right_playing: "playing_run init_game (replicate 57 hold_RIGHT)"
  by (rule quiet_run_playing)
    (simp_all add: init_game_fields right_quiet, simp_all add: level_heap_def
      new_Collectible_def)

text \<open>The thirty-fifth tick of the winning play completes the game with the player
  at 48.\<close>

lemma won_by_winning_inputs:
  "game_complete (update (run init_game winning_inputs) hold_RIGHT)"
  "player (update (run init_game winning_inputs) hold_RIGHT)
     = (new_Player 20 80)\<lparr>p_x := 48, p_y := 7, vel_x := 2, vel_y := 2\<rparr>"
proof -
  let ?g = "run init_game winning_inputs"
  have s: "star ?g = 7" "distinct (collectibles ?g)" "star ?g \<in> set (collectibles ?g)"
    by (simp_all add: run_static init_game_fields)
  have h: "\<not> game_complete ?g" "\<not> pressed_X hold_RIGHT"
    by (simp_all add: winning_run input_defs)
  have y: "\<not> restart_tick ?g hold_RIGHT"
    by (simp add: restart_tick_def winning_tick h(1))
      (simp add: input_defs new_Player_def consts_defs)
  show "game_complete (update ?g hold_RIGHT)"
    using winning_pickup s(3)
    by (simp add: update_playing(3) [OF y h(1)] play_entities_distinct(1) [OF s(2)] s(1))
  show "player (update ?g hold_RIGHT)
      = (new_Player 20 80)\<lparr>p_x := 48, p_y := 7, vel_x := 2, vel_y := 2\<rparr>"
    using h by (simp add: player_of_update winning_tick) (simp add: new_Player_def consts_defs)
qed

text \<open>
  Claim C5, as stated, fails for ticks of the game: after the thirty-four ticks of
  \<open>winning_inputs\<close> the game is playing with the player at 46; with right held the next
  tick picks up the star at 48 and completes the game, and every further tick without
  restart input changes nothing, so the player stays at 48 and never reaches 112. Left
  held in the complete game leaves the player at 48 as well.
\<close>

theorem hold_in_complete_game_counterexample:
  "\<not> game_complete (run init_game winning_inputs)
   \<and> button_RIGHT hold_RIGHT \<and> \<not> button_LEFT hold_RIGHT \<and> button_LEFT hold_LEFT
   \<and> p_width (player (run init_game winning_inputs)) = 8
   \<and> length (replicate 57 hold_RIGHT) = 57
   \<and> p_x (player (run (run init_game winning_inputs) (replicate 57 hold_RIGHT))) = 48
   \<and> p_x (player (run (run init_game winning_inputs) (replicate 57 hold_RIGHT)))
        \<noteq> SCREEN_WIDTH - p_width (player (run init_game winning_inputs))
   \<and> update (update (run init_game winning_inputs) hold_RIGHT) hold_RIGHT
        = update (run init_game winning_inputs) hold_RIGHT
   \<and> p_x (player (run (update (run init_game winning_inputs) hold_RIGHT)
        (replicate 57 hold_LEFT))) = 48"
proof -
  let ?g = "run init_game winning_inputs"
  let ?w = "update ?g hold_RIGHT"
  have b: "button_RIGHT hold_RIGHT" "\<not> button_LEFT hold_RIGHT" "button_LEFT hold_LEFT"
    "\<not> pressed_X hold_RIGHT" "\<not> pressed_X hold_LEFT"
    by (simp_all add: input_defs)
  have w: "p_width (player ?g) = 8"
    by (simp add: run_static init_game_fields new_Player_fields)
  have x: "p_x (player ?w) = 48"
    by (simp add: won_by_winning_inputs(2) new_Player_def)
  have r: "run ?w (replicate 56 hold_RIGHT) = ?w"
    by (rule complete_run_same) (simp_all add: won_by_winning_inputs(1) b)
  have "replicate 57 hold_RIGHT = hold_RIGHT # replicate 56 hold_RIGHT"
    by (simp add: eval_nat_numeral)
  then have "run ?g (replicate 57 hold_RIGHT) = ?w"
    using r by simp
  with x have x57: "p_x (player (run ?g (replicate 57 hold_RIGHT))) = 48"
    by simp
  have f: "update ?w hold_RIGHT = ?w"
    using won_by_winning_inputs(1) b(4) by (simp add: update_def)
  have l: "run ?w (replicate 57 hold_LEFT) = ?w"
    by (rule complete_run_same) (simp_all add: won_by_winning_inputs(1) b)
  have n: "(48 :: real) \<noteq> SCREEN_WIDTH - p_width (player ?g)"
    using w by (simp add: consts_defs)
  from winning_run(1) b w x57 f l x n show ?thesis
    by simp
qed

text \<open>
  Claim C5, amended. After every call of \<^verbatim>\<open>Player.update\<close>, and after every tick of
  the game that ran from the initial one, the player's \<^verbatim>\<open>x\<close> is in
  \<open>[0, SCREEN_WIDTH - width]\<close>, which is [0, 112]. From any start position, 57 or
  more calls of \<^verbatim>\<open>Player.update\<close> with left held end at \<^verbatim>\<open>x\<close> exactly 0, and 57 or
  more calls with right held and left released end at exactly \<open>SCREEN_WIDTH - width\<close>.
  Over ticks of \<^verbatim>\<open>Game.update\<close> the same holds when every one of these ticks runs the
  player's update and keeps it (the game is not complete, there is no restart input and
  the player does not fall off): then the player of the game is the player that the
  calls of \<^verbatim>\<open>Player.update\<close> alone produce. A complete game without restart input
  keeps the player where it is.
\<close>

theorem horizontal_clamp:
  assumes "p_width p = 8"
  shows "0 \<le> p_x (Player_update p i pfs)
     \<and> p_x (Player_update p i pfs) \<le> SCREEN_WIDTH - p_width p
     \<and> SCREEN_WIDTH - p_width p = 112
     \<and> 0 \<le> p_x (player (run init_game ins)) \<and> p_x (player (run init_game ins)) \<le> 112
     \<and> (is \<noteq> [] \<longrightarrow> 0 \<le> p_x (player_run p is pfs) \<and> p_x (player_run p is pfs) \<le> 112)
     \<and> ((\<forall>j \<in> set is. button_LEFT j) \<and> 57 \<le> length is \<longrightarrow>
          p_x (player_run p is pfs) = 0)
     \<and> ((\<forall>j \<in> set is. button_RIGHT j \<and> \<not> button_LEFT j) \<and> 57 \<le> length is \<longrightarrow>
          p_x (player_run p is pfs) = SCREEN_WIDTH - p_width p)
     \<and> (playing_run g is \<longrightarrow> player (run g is) = player_run (player g) is (platforms g))
     \<and> (player g = p \<and> playing_run g is \<and> (\<forall>j \<in> set is. button_LEFT j)
          \<and> 57 \<le> length is \<longrightarrow>
          p_x (player (run g is)) = 0)
     \<and> (player g = p \<and> playing_run g is
          \<and> (\<forall>j \<in> set is. button_RIGHT j \<and> \<not> button_LEFT j) \<and> 57 \<le> length is \<longrightarrow>
          p_x (player (run g is)) = SCREEN_WIDTH - p_width p)
     \<and> (game_complete g \<and> (\<forall>j \<in> set is. \<not> pressed_X j) \<longrightarrow> run g is = g)"
proof -
  have w: "SCREEN_WIDTH - p_width p = 112" "p_width p \<le> SCREEN_WIDTH"
    using assms by (simp_all add: consts_defs)
  have g: "0 \<le> p_x (player (run init_game ins)) \<and> p_x (player (run init_game ins)) \<le> 112"
    by (rule run_x_range) (simp_all add: init_game_def new_Player_def)
  have r: "0 \<le> p_x (player_run p is pfs) \<and> p_x (player_run p is pfs) \<le> 112" if "is \<noteq> []"
    using player_run_x_range [OF w(2) that, of pfs] w(1) by simp
  have l: "p_x (player_run p is pfs) = 0"
    if "(\<forall>j \<in> set is. button_LEFT j) \<and> 57 \<le> length is" for pfs
    using hold_left_converges [OF assms, of "is" pfs] that by blast
  have rt: "p_x (player_run p is pfs) = SCREEN_WIDTH - p_width p"
    if "(\<forall>j \<in> set is. button_RIGHT j \<and> \<not> button_LEFT j) \<and> 57 \<le> length is" for pfs
    using hold_right_converges [OF assms, of "is" pfs] that w(1) by simp
  have pl: "player (run g is) = player_run (player g) is (platforms g)" if "playing_run g is"
    using that by (rule playing_run_player)
  have gl: "p_x (player (run g is)) = 0"
    if "player g = p \<and> playing_run g is \<and> (\<forall>j \<in> set is. button_LEFT j) \<and> 57 \<le> length is"
    using that pl l [of "platforms g"] by simp
  have gr: "p_x (player (run g is)) = SCREEN_WIDTH - p_width p"
    if "player g = p \<and> playing_run g is
        \<and> (\<forall>j \<in> set is. button_RIGHT j \<and> \<not> button_LEFT j) \<and> 57 \<le> length is"
    using that pl rt [of "platforms g"] by simp
  have fr: "run g is = g" if "game_complete g \<and> (\<forall>j \<in> set is. \<not> pressed_X j)"
    using that complete_run_same [of g "is"] by blast
  from Player_update_x_range [OF w(2), of i pfs] w(1) g r l [of pfs] rt [of pfs] pl gl gr fr
  show ?thesis by blast
qed

theorem horizontal_clamp_witness:
  "p_width (player init_game) = 8
   \<and> button_LEFT hold_LEFT \<and> button_RIGHT hold_RIGHT \<and> \<not> button_LEFT hold_RIGHT
   \<and> \<not> pressed_X hold_LEFT
   \<and> length (replicate 57 hold_LEFT) = 57 \<and> length (replicate 57 hold_RIGHT) = 57
   \<and> playing_run init_game (replicate 57 hold_LEFT)
   \<and> playing_run init_game (replicate 57 hold_RIGHT)
   \<and> p_x (player (run init_game (replicate 57 hold_LEFT))) = 0
   \<and> p_x (player (run init_game (replicate 57 hold_RIGHT))) = 112
   \<and> p_x (player_run (player init_game) (replicate 57 hold_LEFT) level_platforms) = 0
   \<and> p_x (player_run (player init_game) (replicate 57 hold_RIGHT) level_platforms) = 112
   \<and> 0 \<le> p_x (Player_update (player init_game) hold_LEFT level_platforms)
   \<and> p_x (Player_update (player init_game) hold_LEFT level_platforms) \<le> 112
   \<and> game_complete won_game
   \<and> run won_game (replicate 57 hold_LEFT) = won_game"
proof -
  let ?p = "player init_game"
  have w: "p_width ?p = 8"
    by (simp add: init_game_fields new_Player_fields)
  have b: "button_LEFT hold_LEFT" "button_RIGHT hold_RIGHT" "\<not> button_LEFT hold_RIGHT"
    "\<not> pressed_X hold_LEFT"
    by (simp_all add: input_defs)
  have n: "length (replicate 57 hold_LEFT) = 57" "length (replicate 57 hold_RIGHT) = 57"
    by simp_all
  have l: "(\<forall>j \<in> set (replicate 57 hold_LEFT). button_LEFT j)
      \<and> 57 \<le> length (replicate 57 hold_LEFT)"
    using b by simp
  have r: "(\<forall>j \<in> set (replicate 57 hold_RIGHT). button_RIGHT j \<and> \<not> button_LEFT j)
      \<and> 57 \<le> length (replicate 57 hold_RIGHT)"
    using b by simp
  have c: "game_complete won_game \<and> (\<forall>j \<in> set (replicate 57 hold_LEFT). \<not> pressed_X j)"
    using b by (simp add: won_game_def)
  have e: "SCREEN_WIDTH - p_width ?p = 112"
    using w by (simp add: consts_defs)
  note tl = horizontal_clamp [OF w, of hold_LEFT level_platforms "[]" "replicate 57 hold_LEFT"
      init_game, unfolded e]
  note tr = horizontal_clamp [OF w, of hold_LEFT level_platforms "[]" "replicate 57 hold_RIGHT"
      init_game, unfolded e]
  note tc = horizontal_clamp [OF w, of hold_LEFT level_platforms "[]" "replicate 57 hold_LEFT"
      won_game, unfolded e]
  have g1: "p_x (player (run init_game (replicate 57 hold_LEFT))) = 0"
    using tl l left_playing by blast
  have g2: "p_x (player (run init_game (replicate 57 hold_RIGHT))) = 112"
    using tr r right_playing by blast
  have t1: "p_x (player_run ?p (replicate 57 hold_LEFT) level_platforms) = 0"
    using tl l by blast
  have t2: "p_x (player_run ?p (replicate 57 hold_RIGHT) level_platforms) = 112"
    using tr r by blast
  have t3: "0 \<le> p_x (Player_update ?p hold_LEFT level_platforms)"
    "p_x (Player_update ?p hold_LEFT level_platforms) \<le> 112"
    using tl by blast+
  have t4: "run won_game (replicate 57 hold_LEFT) = won_game"
    using tc c by blast
  from w b n left_playing right_playing g1 g2 t1 t2 t3 t4 c show ?thesis
    by blast
qed

end
